theory Spec2Isabelle
  imports Complex_Main
begin

section \<open>Python values shared by both modules\<close>

text \<open>
  Exceptions are values. Every constructor stands for a subclass of Python's
  \<open>Exception\<close>: \<open>CalledProcessError\<close> is what \<open>subprocess.run(..., check=True)\<close>
  raises on a non-zero exit status, \<open>ValueError\<close> is raised by
  \<open>generate_preset_config\<close> and by \<open>int\<close>, \<open>OSError\<close> stands for a subprocess
  that could not be started or read, \<open>ReError\<close> for \<open>re.error\<close>.
\<close>

datatype pyexc =
    CalledProcessError
  | ValueError string
  | OSError string
  | ReError string

text \<open>The backslash cannot be written inside a string literal; \<open>bs\<close> is that
  one character, so the Python literal \<open>"Save file\\?"\<close> is \<open>''Save file'' @ bs @ ''?''\<close>.\<close>

definition bs :: string where
  "bs = [CHR 0x5C]"

text \<open>\<open>", ".join(xs)\<close>\<close>

fun join_comma :: "string list \<Rightarrow> string" where
  "join_comma [] = []"
| "join_comma [x] = x"
| "join_comma (x # y # ys) = x @ '', '' @ join_comma (y # ys)"

section \<open>permission\_presets.py\<close>

subsection \<open>The configuration dictionaries\<close>

text \<open>
  A generated or loaded configuration is a nested dictionary that the responder
  reads with \<open>.get(key, default)\<close> throughout, so every key may be absent:
  each field is an option and \<open>None\<close> is the absent key. The dictionary
  \<open>granular_controls\<close> is iterated in insertion order, hence an association list.
  The floats \<open>check_interval\<close> and \<open>response_delay\<close> are only ever copied and
  handed to \<open>time.sleep\<close>; they are kept as the rationals their literals denote.
\<close>

record category_config =
  enabled :: "bool option"
  description :: "string option"
  patterns :: "string list option"
  response :: "string option"

record safety_config =
  skip_dangerous_operations :: "bool option"
  dangerous_patterns :: "string list option"
  require_manual_approval :: "string list option"

record auto_responder_config =
  ar_enabled :: "bool option"
  check_interval :: "rat option"
  response_delay :: "rat option"
  log_responses :: "bool option"
  granular_controls :: "(string \<times> category_config) list option"
  safety_controls :: "safety_config option"

record config =
  auto_responder :: "auto_responder_config option"

subsection \<open>The catalogue\<close>

text \<open>An entry of \<open>GRANULAR_CONTROLS\<close>: all four keys are always present.\<close>

record control =
  c_description :: string
  c_patterns :: "string list"
  c_response :: string
  enabled_in :: "string list"

definition GRANULAR_CONTROLS :: "(string \<times> control) list" where
  "GRANULAR_CONTROLS =
    [(''file_operations'',
        \<lparr>c_description = ''File creation, editing, saving'',
         c_patterns =
           [''Apply these changes'' @ bs @ ''?'',
            ''Save file'' @ bs @ ''?'',
            ''Create file'' @ bs @ ''?'',
            ''Overwrite file'' @ bs @ ''?'',
            ''Write to file'' @ bs @ ''?''],
         c_response = ''1'',
         enabled_in = [''pm_orchestrator'', ''safe_development'', ''autonomous_agent'']\<rparr>),
     (''command_execution'',
        \<lparr>c_description = ''Shell commands and script execution'',
         c_patterns =
           [''Execute this command'' @ bs @ ''?'',
            ''Run this script'' @ bs @ ''?'',
            ''Execute in terminal'' @ bs @ ''?'',
            ''Run command'' @ bs @ ''?''],
         c_response = ''1'',
         enabled_in = [''autonomous_agent'']\<rparr>),
     (''general_confirmations'',
        \<lparr>c_description = ''General yes/no confirmations'',
         c_patterns =
           [''1'' @ bs @ ''. yes'' @ bs @ ''s*2'' @ bs @ ''. no'',
            ''Confirm'' @ bs @ ''?'' @ bs @ ''s*'' @ bs @ ''(yes/no'' @ bs @ '')'',
            ''Continue'' @ bs @ ''?'' @ bs @ ''s*'' @ bs @ ''(y/n'' @ bs @ '')'',
            ''Proceed'' @ bs @ ''?'' @ bs @ ''s*'' @ bs @ ''(yes/no'' @ bs @ '')''],
         c_response = ''1'',
         enabled_in =
           [''pm_orchestrator'', ''safe_development'', ''conservative'', ''autonomous_agent'']\<rparr>),
     (''persistent_choices'',
        \<lparr>c_description = ''Yes and don't ask again options'',
         c_patterns =
           [''1'' @ bs @ ''. yes'' @ bs @ ''s*2'' @ bs @ ''. yes and don't ask again''
              @ bs @ ''s*3'' @ bs @ ''. no''],
         c_response = ''2'',
         enabled_in = [''autonomous_agent'']\<rparr>),
     (''continue_operations'',
        \<lparr>c_description = ''Continue with current operation'',
         c_patterns =
           [''Do you want to continue'' @ bs @ ''?'',
            ''Do you want to proceed'' @ bs @ ''?'',
            ''Continue with this action'' @ bs @ ''?''],
         c_response = ''1'',
         enabled_in = [''pm_orchestrator'', ''safe_development'', ''autonomous_agent'']\<rparr>),
     (''package_management'',
        \<lparr>c_description = ''Package installations and updates'',
         c_patterns =
           [''Install package'' @ bs @ ''?'',
            ''Update dependencies'' @ bs @ ''?'',
            ''Add to package'' @ bs @ ''.json'' @ bs @ ''?'',
            ''Install npm package'' @ bs @ ''?''],
         c_response = ''1'',
         enabled_in = [''autonomous_agent'']\<rparr>),
     (''git_operations'',
        \<lparr>c_description = ''Git commits, pushes, and repository operations'',
         c_patterns =
           [''Commit changes'' @ bs @ ''?'',
            ''Push to repository'' @ bs @ ''?'',
            ''Create branch'' @ bs @ ''?'',
            ''Merge branch'' @ bs @ ''?''],
         c_response = ''1'',
         enabled_in = []\<rparr>)]"

definition SAFETY_CONTROLS :: safety_config where
  "SAFETY_CONTROLS =
    \<lparr>skip_dangerous_operations = Some True,
     dangerous_patterns =
       Some [''delete'', ''remove'', ''rm -rf'', ''DROP TABLE'', ''DELETE FROM'',
             ''truncate'', ''format'', ''destroy'', ''purge''],
     require_manual_approval =
       Some [''production'', ''prod'', ''live'', ''master'', ''main branch'']\<rparr>"

text \<open>
  An entry of \<open>PRESET_INFO\<close>. The keys \<open>perfect_for\<close> and \<open>risk_level\<close> are read
  by the printing function \<open>list_presets\<close> only and are left out.
\<close>

record preset_info =
  p_description :: string
  p_check_interval :: rat
  p_response_delay :: rat

definition PRESET_INFO :: "(string \<times> preset_info) list" where
  "PRESET_INFO =
    [(''pm_orchestrator'',
        \<lparr>p_description = ''PM Orchestrator Preset'',
         p_check_interval = 2, p_response_delay = 1 / 2\<rparr>),
     (''safe_development'',
        \<lparr>p_description = ''Safe Development Preset'',
         p_check_interval = 2, p_response_delay = 1 / 2\<rparr>),
     (''conservative'',
        \<lparr>p_description = ''Conservative Preset'',
         p_check_interval = 3, p_response_delay = 1\<rparr>),
     (''autonomous_agent'',
        \<lparr>p_description = ''Autonomous Agent Preset'',
         p_check_interval = 3 / 2, p_response_delay = 3 / 10\<rparr>)]"

subsection \<open>generate\_preset\_config and get\_preset\<close>

text \<open>The body of the loop over \<open>GRANULAR_CONTROLS.items()\<close>: one generated
  category dictionary, its flag the membership test
  \<open>preset_name in control_config["enabled_in"]\<close>.\<close>

definition generate_control ::
  "string \<Rightarrow> string \<times> control \<Rightarrow> string \<times> category_config" where
  "generate_control preset_name kc =
     (fst kc,
      \<lparr>enabled = Some (preset_name \<in> set (enabled_in (snd kc))),
       description = Some (c_description (snd kc)),
       patterns = Some (c_patterns (snd kc)),
       response = Some (c_response (snd kc))\<rparr>)"

definition generate_preset_config :: "string \<Rightarrow> pyexc + config" where
  "generate_preset_config preset_name =
     (case map_of PRESET_INFO preset_name of
        None \<Rightarrow>
          Inl (ValueError (''Unknown preset '' @ [CHR 0x27] @ preset_name @ [CHR 0x27]
                 @ ''. Available: '' @ join_comma (map fst PRESET_INFO)))
      | Some preset_info \<Rightarrow>
          Inr \<lparr>auto_responder = Some
            \<lparr>ar_enabled = Some True,
             check_interval = Some (p_check_interval preset_info),
             response_delay = Some (p_response_delay preset_info),
             log_responses = Some True,
             granular_controls = Some (map (generate_control preset_name) GRANULAR_CONTROLS),
             safety_controls = Some SAFETY_CONTROLS\<rparr>\<rparr>)"

text \<open>The legacy functions and the registry \<open>PRESETS\<close> that maps a name to one of them.\<close>

definition safe_development :: "pyexc + config" where
  "safe_development = generate_preset_config ''safe_development''"

definition autonomous_agent :: "pyexc + config" where
  "autonomous_agent = generate_preset_config ''autonomous_agent''"

definition conservative :: "pyexc + config" where
  "conservative = generate_preset_config ''conservative''"

definition pm_orchestrator :: "pyexc + config" where
  "pm_orchestrator = generate_preset_config ''pm_orchestrator''"

definition PRESETS :: "(string \<times> (pyexc + config)) list" where
  "PRESETS =
    [(''safe_development'', safe_development),
     (''autonomous_agent'', autonomous_agent),
     (''conservative'', conservative),
     (''pm_orchestrator'', pm_orchestrator)]"

definition get_preset :: "string \<Rightarrow> pyexc + config" where
  "get_preset name =
     (case map_of PRESETS name of
        Some preset \<Rightarrow> preset
      | None \<Rightarrow> generate_preset_config name)"

section \<open>integrated\_auto\_responder.py\<close>

subsection \<open>The environment: tmux, the regex engine, the clock\<close>

text \<open>
  The responder reaches tmux only through \<open>subprocess.run\<close>. A command is one of
  the four argument vectors the source builds; the target \<open>f"{session}:{window}"\<close>
  is kept as the pair it is formatted from.
\<close>

datatype cmd =
    ListWindows string
  | CapturePane string int int
  | SendScript string int string
  | SendKeys string int string

text \<open>What running a command does: it exits with a return code and its standard
  output, or \<open>subprocess.run\<close> itself raises (the program is missing, its output
  cannot be decoded).\<close>

datatype proc_outcome =
    Exited int string
  | Raises pyexc

datatype re_flag = IGNORECASE | MULTILINE

text \<open>
  The world is what the responder cannot compute: the outcome of each command,
  \<open>re.search(pattern, content, flags)\<close> of Python's regex library (a match, no
  match, or \<open>re.error\<close> for a pattern that does not compile), and whether the
  helper script \<open>send-claude-message.sh\<close> exists beside the module.
\<close>

record world =
  run :: "cmd \<Rightarrow> proc_outcome"
  re_search :: "string \<Rightarrow> string \<Rightarrow> re_flag set \<Rightarrow> pyexc + bool"
  send_script_exists :: bool

text \<open>Everything the responder does to the outside is recorded, in order.\<close>

datatype event =
    Run cmd
  | Sleep rat
  | WriteConfig config

record log_entry =
  timestamp :: nat
  session :: string
  window :: int
  le_response :: string
  status :: string
  category :: string
  le_description :: string

text \<open>
  The object \<open>self\<close>. The attribute \<open>self.config\<close> is a reference to a dictionary
  object: \<open>config_ref\<close> is the reference and \<open>heap\<close> holds the object it points to,
  so that assigning a key of the dictionary (which changes the object) and assigning
  the attribute (which changes the reference) are different updates. \<open>clock\<close> is
  the reading of \<open>datetime.now()\<close>, advanced by every call.
\<close>

record responder =
  heap :: "nat \<Rightarrow> config"
  config_ref :: nat
  running :: bool
  response_log :: "log_entry list"
  clock :: nat
  trace :: "event list"

definition cfg :: "responder \<Rightarrow> config" where
  "cfg s = heap s (config_ref s)"

text \<open>\<open>d.get(key, default)\<close>\<close>

definition dict_get :: "'a option \<Rightarrow> 'a \<Rightarrow> 'a" where
  "dict_get v dflt = (case v of None \<Rightarrow> dflt | Some x \<Rightarrow> x)"

text \<open>The empty dictionaries \<open>{}\<close> that the source passes as defaults.\<close>

definition empty_auto_responder :: auto_responder_config where
  "empty_auto_responder =
     \<lparr>ar_enabled = None, check_interval = None, response_delay = None,
      log_responses = None, granular_controls = None, safety_controls = None\<rparr>"

definition empty_safety :: safety_config where
  "empty_safety =
     \<lparr>skip_dangerous_operations = None, dangerous_patterns = None,
      require_manual_approval = None\<rparr>"

text \<open>\<open>self.config.get("auto_responder", {})\<close>\<close>

definition get_auto_responder :: "responder \<Rightarrow> auto_responder_config" where
  "get_auto_responder s = dict_get (auto_responder (cfg s)) empty_auto_responder"

definition is_enabled :: "responder \<Rightarrow> bool" where
  "is_enabled s = dict_get (ar_enabled (get_auto_responder s)) False"

text \<open>The two local dictionaries most methods start from.\<close>

abbreviation safety_of :: "responder \<Rightarrow> safety_config" where
  "safety_of s \<equiv> dict_get (safety_controls (get_auto_responder s)) empty_safety"

abbreviation categories_of :: "responder \<Rightarrow> (string \<times> category_config) list" where
  "categories_of s \<equiv> dict_get (granular_controls (get_auto_responder s)) []"

subsection \<open>The configuration a responder starts from\<close>

text \<open>\<open>get_default_config\<close>; its legacy keys \<open>patterns\<close> and \<open>responses\<close>, which no
  method reads, are left out.\<close>

definition get_default_config :: config where
  "get_default_config =
     \<lparr>auto_responder = Some
        \<lparr>ar_enabled = Some False, check_interval = Some 2, response_delay = Some (1 / 2),
         log_responses = Some True, granular_controls = None, safety_controls = None\<rparr>\<rparr>"

text \<open>\<open>get_preset_config\<close>: the preset, or the default configuration when the name
  is unknown.\<close>

definition get_preset_config :: "string \<Rightarrow> config" where
  "get_preset_config preset =
     (case get_preset preset of
        Inr conf \<Rightarrow> conf
      | Inl e \<Rightarrow> get_default_config)"

subsection \<open>Subprocess calls and the two tmux wrappers\<close>

definition subprocess_run ::
  "world \<Rightarrow> bool \<Rightarrow> cmd \<Rightarrow> responder \<Rightarrow> (pyexc + string) \<times> responder" where
  "subprocess_run w check c s =
     (let s' = s\<lparr>trace := trace s @ [Run c]\<rparr> in
      case run w c of
        Raises e \<Rightarrow> (Inl e, s')
      | Exited rc out \<Rightarrow>
          if check \<and> rc \<noteq> 0 then (Inl CalledProcessError, s') else (Inr out, s'))"

text \<open>\<open>time.sleep(d)\<close> raises \<open>ValueError\<close> for a negative length and sleeps otherwise.\<close>

definition time_sleep :: "rat \<Rightarrow> responder \<Rightarrow> (pyexc + unit) \<times> responder" where
  "time_sleep d s =
     (if d < 0 then (Inl (ValueError ''sleep length must be non-negative''), s)
      else (Inr (), s\<lparr>trace := trace s @ [Sleep d]\<rparr>))"

text \<open>
  The characters of a \<open>str\<close> are code points; the model has those below 256.
  \<open>py_isspace\<close> is \<open>str.isspace\<close> on them, the characters \<open>str.strip()\<close> removes.
\<close>

definition py_isspace :: "char \<Rightarrow> bool" where
  "py_isspace c =
     (c \<in> set [CHR 0x09, CHR 0x0A, CHR 0x0B, CHR 0x0C, CHR 0x0D,
                CHR 0x1C, CHR 0x1D, CHR 0x1E, CHR 0x1F, CHR '' '', CHR 0x85, CHR 0xA0])"

definition py_strip :: "string \<Rightarrow> string" where
  "py_strip xs = rev (dropWhile py_isspace (rev (dropWhile py_isspace xs)))"

text \<open>The white space \<open>int\<close> accepts around the digits: the separators \<open>0x1C\<close> to
  \<open>0x1F\<close> are not part of it.\<close>

definition int_isspace :: "char \<Rightarrow> bool" where
  "int_isspace c =
     (c \<in> set [CHR 0x09, CHR 0x0A, CHR 0x0B, CHR 0x0C, CHR 0x0D, CHR '' '',
                CHR 0x85, CHR 0xA0])"

definition int_strip :: "string \<Rightarrow> string" where
  "int_strip xs = rev (dropWhile int_isspace (rev (dropWhile int_isspace xs)))"

text \<open>\<open>xs.split('\n')\<close>: the pieces between line feeds, empty pieces kept.\<close>

fun split_lines :: "string \<Rightarrow> string list" where
  "split_lines [] = [[]]"
| "split_lines (c # cs) =
     (if c = CHR 0x0A then [] # split_lines cs
      else (case split_lines cs of
              [] \<Rightarrow> [[c]]
            | l # ls \<Rightarrow> (c # l) # ls))"

definition is_digit :: "char \<Rightarrow> bool" where
  "is_digit c = (c \<in> set ''0123456789'')"

definition digit_val :: "char \<Rightarrow> int" where
  "digit_val c = int (of_char c) - 48"

text \<open>The digits of a decimal literal, most significant first; single underscores
  may separate digits, as in Python.\<close>

fun digits_ok :: "string \<Rightarrow> bool" where
  "digits_ok [] = False"
| "digits_ok [c] = is_digit c"
| "digits_ok (c # d # cs) =
     (is_digit c \<and> (if d = CHR ''_'' then digits_ok cs else digits_ok (d # cs)))"

definition digits_value :: "string \<Rightarrow> int" where
  "digits_value ds = foldl (\<lambda>acc d. 10 * acc + digit_val d) 0 (filter is_digit ds)"

text \<open>\<open>int(w)\<close> on a string: white space around, an optional sign, decimal digits;
  anything else raises \<open>ValueError\<close> (its message quotes the string as it is, where
  Python prints its \<open>repr\<close>).\<close>

definition py_int :: "string \<Rightarrow> pyexc + int" where
  "py_int w =
     (let t = int_strip w;
          bad = Inl (ValueError (''invalid literal for int() with base 10: ''
                                  @ [CHR 0x27] @ w @ [CHR 0x27]))
      in case t of
           [] \<Rightarrow> bad
         | c # cs \<Rightarrow>
             if c = CHR ''-'' then (if digits_ok cs then Inr (- digits_value cs) else bad)
             else if c = CHR ''+'' then (if digits_ok cs then Inr (digits_value cs) else bad)
             else if digits_ok t then Inr (digits_value t) else bad)"

text \<open>The list comprehension \<open>[int(w) for w in ... if w]\<close>: the first piece that does
  not parse raises.\<close>

fun int_each :: "string list \<Rightarrow> pyexc + int list" where
  "int_each [] = Inr []"
| "int_each (w # ws) =
     (if w = [] then int_each ws
      else (case py_int w of
              Inl e \<Rightarrow> Inl e
            | Inr n \<Rightarrow> (case int_each ws of Inl e \<Rightarrow> Inl e | Inr ns \<Rightarrow> Inr (n # ns))))"

definition get_session_windows ::
  "world \<Rightarrow> string \<Rightarrow> responder \<Rightarrow> (pyexc + int list) \<times> responder" where
  "get_session_windows w session_name s =
     (case subprocess_run w True (ListWindows session_name) s of
        (Inr out, s') \<Rightarrow> (int_each (split_lines (py_strip out)), s')
      | (Inl CalledProcessError, s') \<Rightarrow> (Inr [], s')
      | (Inl e, s') \<Rightarrow> (Inl e, s'))"

definition capture_window_content ::
  "world \<Rightarrow> string \<Rightarrow> int \<Rightarrow> int \<Rightarrow> responder \<Rightarrow> (pyexc + string) \<times> responder" where
  "capture_window_content w session_name window_index lines s =
     (case subprocess_run w True (CapturePane session_name window_index lines) s of
        (Inr out, s') \<Rightarrow> (Inr out, s')
      | (Inl CalledProcessError, s') \<Rightarrow> (Inr [], s')
      | (Inl e, s') \<Rightarrow> (Inl e, s'))"

subsection \<open>The audit log\<close>

definition log_response ::
  "string \<Rightarrow> int \<Rightarrow> string \<Rightarrow> string \<Rightarrow> string \<Rightarrow> string \<Rightarrow> responder \<Rightarrow> responder" where
  "log_response session_name window_index resp stat cat descr s =
     (if \<not> dict_get (log_responses (get_auto_responder s)) True then s
      else s\<lparr>response_log := response_log s @
                 [\<lparr>timestamp = clock s, session = session_name, window = window_index,
                   le_response = resp, status = stat, category = cat,
                   le_description = descr\<rparr>],
               clock := clock s + 2\<rparr>)"

subsection \<open>Classification\<close>

text \<open>The loop \<open>for pattern in patterns: if re.search(pattern, content, flags): return ...\<close>:
  the first pattern that matches, \<open>None\<close> when the loop runs out, the exception of
  the first pattern that raises before any match.\<close>

fun first_match ::
  "world \<Rightarrow> re_flag set \<Rightarrow> string list \<Rightarrow> string \<Rightarrow> pyexc + string option" where
  "first_match w flags [] content = Inr None"
| "first_match w flags (p # ps) content =
     (case re_search w p content flags of
        Inl e \<Rightarrow> Inl e
      | Inr True \<Rightarrow> Inr (Some p)
      | Inr False \<Rightarrow> first_match w flags ps content)"

definition is_dangerous_operation :: "world \<Rightarrow> responder \<Rightarrow> string \<Rightarrow> pyexc + bool" where
  "is_dangerous_operation w s content =
     (let safety = dict_get (safety_controls (get_auto_responder s)) empty_safety in
      if \<not> dict_get (skip_dangerous_operations safety) True then Inr False
      else
        (case first_match w {IGNORECASE} (dict_get (dangerous_patterns safety) []) content of
           Inl e \<Rightarrow> Inl e
         | Inr (Some p) \<Rightarrow> Inr True
         | Inr None \<Rightarrow>
             (case first_match w {IGNORECASE}
                     (dict_get (require_manual_approval safety) []) content of
                Inl e \<Rightarrow> Inl e
              | Inr (Some p) \<Rightarrow> Inr True
              | Inr None \<Rightarrow> Inr False)))"

text \<open>The dictionary \<open>check_for_confirmation_prompt\<close> returns.\<close>

record prompt_info =
  pi_response :: string
  pi_category :: string
  pi_description :: string
  pattern_matched :: string

text \<open>The loop over \<open>granular_controls.items()\<close>.\<close>

fun scan_categories ::
  "world \<Rightarrow> (string \<times> category_config) list \<Rightarrow> string \<Rightarrow> pyexc + prompt_info option" where
  "scan_categories w [] content = Inr None"
| "scan_categories w ((category_name, category_config) # rest) content =
     (if \<not> dict_get (enabled category_config) False then scan_categories w rest content
      else
        (case first_match w {IGNORECASE, MULTILINE}
                (dict_get (patterns category_config) []) content of
           Inl e \<Rightarrow> Inl e
         | Inr (Some p) \<Rightarrow>
             Inr (Some \<lparr>pi_response = dict_get (response category_config) ''1'',
                        pi_category = category_name,
                        pi_description = dict_get (description category_config) [],
                        pattern_matched = p\<rparr>)
         | Inr None \<Rightarrow> scan_categories w rest content))"

definition check_for_confirmation_prompt ::
  "world \<Rightarrow> string \<Rightarrow> int \<Rightarrow> responder \<Rightarrow> (pyexc + prompt_info option) \<times> responder" where
  "check_for_confirmation_prompt w session_name window_index s =
     (case capture_window_content w session_name window_index 20 s of
        (Inl e, s1) \<Rightarrow> (Inl e, s1)
      | (Inr content, s1) \<Rightarrow>
          if content = [] then (Inr None, s1)
          else
            (case is_dangerous_operation w s1 content of
               Inl e \<Rightarrow> (Inl e, s1)
             | Inr True \<Rightarrow>
                 (Inr None,
                  log_response session_name window_index ''SKIPPED''
                    ''Dangerous operation detected'' [] [] s1)
             | Inr False \<Rightarrow>
                 (scan_categories w
                    (dict_get (granular_controls (get_auto_responder s1)) []) content,
                  s1)))"

subsection \<open>Sending a response\<close>

text \<open>
  The body of the \<open>try\<close> in \<open>send_response\<close>, up to the assignment of \<open>method\<close>.
  The script is run with \<open>check=True\<close>; the two fallback \<open>send-keys\<close> calls are
  not, so a failing tmux goes unnoticed there.
\<close>

definition send_response_try ::
  "world \<Rightarrow> string \<Rightarrow> int \<Rightarrow> string \<Rightarrow> responder \<Rightarrow> (pyexc + string) \<times> responder" where
  "send_response_try w session_name window_index resp s =
     (if send_script_exists w then
        (case subprocess_run w True (SendScript session_name window_index resp) s of
           (Inl e, s1) \<Rightarrow> (Inl e, s1)
         | (Inr out, s1) \<Rightarrow> (Inr ''send-claude-message.sh'', s1))
      else
        (case subprocess_run w False (SendKeys session_name window_index resp) s of
           (Inl e, s1) \<Rightarrow> (Inl e, s1)
         | (Inr out, s1) \<Rightarrow>
             (case time_sleep (dict_get (response_delay (get_auto_responder s1)) (1 / 2)) s1 of
                (Inl e, s2) \<Rightarrow> (Inl e, s2)
              | (Inr u, s2) \<Rightarrow>
                  (case subprocess_run w False
                          (SendKeys session_name window_index ''Enter'') s2 of
                     (Inl e, s3) \<Rightarrow> (Inl e, s3)
                   | (Inr out', s3) \<Rightarrow> (Inr ''direct tmux'', s3)))))"

text \<open>\<open>send_response\<close>: only \<open>CalledProcessError\<close> is caught. The logged text
  \<open>f"Error: {e}"\<close> is abridged to the exception's class name.\<close>

definition send_response ::
  "world \<Rightarrow> string \<Rightarrow> int \<Rightarrow> string \<Rightarrow> responder \<Rightarrow> (pyexc + bool) \<times> responder" where
  "send_response w session_name window_index resp s =
     (case send_response_try w session_name window_index resp s of
        (Inr method, s1) \<Rightarrow>
          (Inr True,
           log_response session_name window_index resp (''Success via '' @ method) [] [] s1)
      | (Inl CalledProcessError, s1) \<Rightarrow>
          (Inr False,
           log_response session_name window_index resp ''Error: CalledProcessError'' [] [] s1)
      | (Inl e, s1) \<Rightarrow> (Inl e, s1))"

subsection \<open>The monitor loop\<close>

text \<open>The body of \<open>for window_index in windows\<close>, after the \<open>running\<close> test.\<close>

definition process_window ::
  "world \<Rightarrow> string \<Rightarrow> int \<Rightarrow> responder \<Rightarrow> (pyexc + unit) \<times> responder" where
  "process_window w session_name window_index s =
     (case check_for_confirmation_prompt w session_name window_index s of
        (Inl e, s1) \<Rightarrow> (Inl e, s1)
      | (Inr None, s1) \<Rightarrow> (Inr (), s1)
      | (Inr (Some info), s1) \<Rightarrow>
          (case send_response w session_name window_index (pi_response info) s1 of
             (Inl e, s2) \<Rightarrow> (Inl e, s2)
           | (Inr success, s2) \<Rightarrow>
               (Inr (),
                if success
                then log_response session_name window_index (pi_response info)
                       ''Auto-approved'' (pi_category info) (pi_description info) s2
                else s2)))"

fun for_windows ::
  "world \<Rightarrow> string \<Rightarrow> int list \<Rightarrow> responder \<Rightarrow> (pyexc + unit) \<times> responder" where
  "for_windows w session_name [] s = (Inr (), s)"
| "for_windows w session_name (window_index # rest) s =
     (if \<not> running s then (Inr (), s)
      else
        (case process_window w session_name window_index s of
           (Inl e, s1) \<Rightarrow> (Inl e, s1)
         | (Inr u, s1) \<Rightarrow> for_windows w session_name rest s1))"

text \<open>The body of the \<open>try\<close> inside the \<open>while\<close> loop of \<open>monitor_session\<close>.\<close>

definition tick_try ::
  "world \<Rightarrow> string \<Rightarrow> rat \<Rightarrow> responder \<Rightarrow> (pyexc + unit) \<times> responder" where
  "tick_try w session_name interval s =
     (case get_session_windows w session_name s of
        (Inl e, s1) \<Rightarrow> (Inl e, s1)
      | (Inr windows, s1) \<Rightarrow>
          (case for_windows w session_name windows s1 of
             (Inl e, s2) \<Rightarrow> (Inl e, s2)
           | (Inr u, s2) \<Rightarrow> time_sleep interval s2))"

text \<open>One pass of the \<open>while\<close> body: \<open>except Exception\<close> catches every exception of
  the model, prints, and sleeps. Nothing protects the handler's own sleep: when it
  raises, the exception leaves \<open>monitor_session\<close>.\<close>

definition tick ::
  "world \<Rightarrow> string \<Rightarrow> rat \<Rightarrow> responder \<Rightarrow> (pyexc + unit) \<times> responder" where
  "tick w session_name interval s =
     (case tick_try w session_name interval s of
        (Inl e, s1) \<Rightarrow> time_sleep interval s1
      | (Inr u, s1) \<Rightarrow> (Inr (), s1))"

text \<open>The \<open>while self.running and self.is_enabled()\<close> loop, with fuel. \<open>None\<close> is a loop
  that has not ended after that many passes; \<open>Some (Inr (), s)\<close> is the loop left
  through its condition, \<open>Some (Inl e, s)\<close> the loop left by the exception \<open>e\<close>.\<close>

fun monitor_loop ::
  "nat \<Rightarrow> world \<Rightarrow> string \<Rightarrow> rat \<Rightarrow> responder \<Rightarrow> ((pyexc + unit) \<times> responder) option" where
  "monitor_loop 0 w session_name interval s =
     (if running s \<and> is_enabled s then None else Some (Inr (), s))"
| "monitor_loop (Suc n) w session_name interval s =
     (if running s \<and> is_enabled s
      then (case tick w session_name interval s of
              (Inl e, s1) \<Rightarrow> Some (Inl e, s1)
            | (Inr u, s1) \<Rightarrow> monitor_loop n w session_name interval s1)
      else Some (Inr (), s))"

definition monitor_session ::
  "nat \<Rightarrow> world \<Rightarrow> string \<Rightarrow> responder \<Rightarrow> ((pyexc + unit) \<times> responder) option" where
  "monitor_session fuel w session_name s =
     monitor_loop fuel w session_name
       (dict_get (check_interval (get_auto_responder s)) 2) s"

text \<open>The attributes of self that no step of the monitor loop assigns.\<close>

definition same_self :: "responder \<Rightarrow> responder \<Rightarrow> bool" where
  "same_self s s' =
     (heap s' = heap s \<and> config_ref s' = config_ref s \<and> running s' = running s)"

subsection \<open>Changing the configuration\<close>

text \<open>
  An item assignment \<open>self.config[...]... = v\<close> changes the dictionary object that
  \<open>self.config\<close> refers to; the attribute itself is not assigned. In the model the
  object stored at \<open>config_ref\<close> is replaced and \<open>config_ref\<close> stays.
\<close>

definition update_config :: "(config \<Rightarrow> config) \<Rightarrow> responder \<Rightarrow> responder" where
  "update_config f s = s\<lparr>heap := (heap s)(config_ref s := f (cfg s))\<rparr>"

text \<open>\<open>save_config\<close> writes the dictionary to the file; a failure to write is
  caught and printed, so the responder itself sees no difference.\<close>

definition save_config :: "responder \<Rightarrow> responder" where
  "save_config s = s\<lparr>trace := trace s @ [WriteConfig (cfg s)]\<rparr>"

definition stop :: "responder \<Rightarrow> responder" where
  "stop s = s\<lparr>running := False\<rparr>"

text \<open>\<open>if "auto_responder" not in self.config: self.config["auto_responder"] = {}\<close>
  followed by \<open>self.config["auto_responder"]["enabled"] = b\<close>.\<close>

definition set_enabled :: "bool \<Rightarrow> config \<Rightarrow> config" where
  "set_enabled b conf =
     conf\<lparr>auto_responder :=
       Some ((dict_get (auto_responder conf) empty_auto_responder)\<lparr>ar_enabled := Some b\<rparr>)\<rparr>"

definition enable :: "responder \<Rightarrow> responder" where
  "enable s = save_config (update_config (set_enabled True) s)"

definition disable :: "responder \<Rightarrow> responder" where
  "disable s = stop (save_config (update_config (set_enabled False) s))"

text \<open>The two guards at the head of \<open>enable_category\<close> and \<open>disable_category\<close>, which
  create the missing dictionaries.\<close>

definition ensure_granular_controls :: "config \<Rightarrow> config" where
  "ensure_granular_controls conf =
     (let a = dict_get (auto_responder conf) empty_auto_responder in
      conf\<lparr>auto_responder :=
        Some (a\<lparr>granular_controls := Some (dict_get (granular_controls a) [])\<rparr>)\<rparr>)"

text \<open>\<open>self.config["auto_responder"]["granular_controls"][category]["enabled"] = b\<close>\<close>

definition set_category_enabled :: "string \<Rightarrow> bool \<Rightarrow> config \<Rightarrow> config" where
  "set_category_enabled cat b conf =
     (let a = dict_get (auto_responder conf) empty_auto_responder in
      conf\<lparr>auto_responder :=
        Some (a\<lparr>granular_controls :=
          Some (map (\<lambda>kc. if fst kc = cat then (fst kc, (snd kc)\<lparr>enabled := Some b\<rparr>) else kc)
                  (dict_get (granular_controls a) []))\<rparr>)\<rparr>)"

definition change_category :: "bool \<Rightarrow> string \<Rightarrow> responder \<Rightarrow> bool \<times> responder" where
  "change_category b cat s =
     (let s1 = update_config ensure_granular_controls s in
      if cat \<in> fst ` set (dict_get (granular_controls (get_auto_responder s1)) [])
      then (True, save_config (update_config (set_category_enabled cat b) s1))
      else (False, s1))"

definition enable_category :: "string \<Rightarrow> responder \<Rightarrow> bool \<times> responder" where
  "enable_category cat s = change_category True cat s"

definition disable_category :: "string \<Rightarrow> responder \<Rightarrow> bool \<times> responder" where
  "disable_category cat s = change_category False cat s"

subsection \<open>Status\<close>

record category_status =
  cs_enabled :: bool
  cs_description :: string
  patterns_count :: nat

definition list_categories :: "responder \<Rightarrow> (string \<times> category_status) list" where
  "list_categories s =
     map (\<lambda>kc. (fst kc,
                 \<lparr>cs_enabled = dict_get (enabled (snd kc)) False,
                  cs_description = dict_get (description (snd kc)) [],
                  patterns_count = length (dict_get (patterns (snd kc)) [])\<rparr>))
       (dict_get (granular_controls (get_auto_responder s)) [])"

text \<open>The slice \<open>self.response_log[-10:]\<close>.\<close>

definition recent_responses :: "responder \<Rightarrow> log_entry list" where
  "recent_responses s = drop (length (response_log s) - 10) (response_log s)"

record status_report =
  st_enabled :: bool
  st_running :: bool
  st_recent_responses :: "log_entry list"
  st_categories :: "(string \<times> category_status) list"
  st_config :: auto_responder_config

definition get_status :: "responder \<Rightarrow> status_report" where
  "get_status s =
     \<lparr>st_enabled = is_enabled s,
      st_running = running s,
      st_recent_responses = recent_responses s,
      st_categories = list_categories s,
      st_config = get_auto_responder s\<rparr>"

subsection \<open>Two executions of send\_response at once\<close>

text \<open>
  \<open>start_for_session\<close> starts one thread per call and takes no lock, so two
  threads can be inside \<open>send_response\<close> for the same window. To speak of that,
  \<open>send_response\<close> is cut at its calls to the outside: a thread is at the start,
  has sent the keys, has slept, or is done. \<open>send_response_step\<close> runs one thread
  up to its next cut on the shared object.
\<close>

datatype send_pc =
    AtStart
  | AfterKeys
  | AfterSleep
  | Returned bool
  | Raised pyexc

definition finish_send ::
  "string \<Rightarrow> int \<Rightarrow> string \<Rightarrow> (pyexc + string) \<times> responder \<Rightarrow> send_pc \<times> responder" where
  "finish_send session_name window_index resp r =
     (case r of
        (Inr method, s1) \<Rightarrow>
          (Returned True,
           log_response session_name window_index resp (''Success via '' @ method) [] [] s1)
      | (Inl CalledProcessError, s1) \<Rightarrow>
          (Returned False,
           log_response session_name window_index resp ''Error: CalledProcessError'' [] [] s1)
      | (Inl e, s1) \<Rightarrow> (Raised e, s1))"

fun send_response_step ::
  "world \<Rightarrow> string \<Rightarrow> int \<Rightarrow> string \<Rightarrow> send_pc \<Rightarrow> responder \<Rightarrow> send_pc \<times> responder" where
  "send_response_step w session_name window_index resp AtStart s =
     (if send_script_exists w then
        finish_send session_name window_index resp
          (case subprocess_run w True (SendScript session_name window_index resp) s of
             (Inl e, s1) \<Rightarrow> (Inl e, s1)
           | (Inr out, s1) \<Rightarrow> (Inr ''send-claude-message.sh'', s1))
      else
        (case subprocess_run w False (SendKeys session_name window_index resp) s of
           (Inl e, s1) \<Rightarrow> finish_send session_name window_index resp (Inl e, s1)
         | (Inr out, s1) \<Rightarrow> (AfterKeys, s1)))"
| "send_response_step w session_name window_index resp AfterKeys s =
     (case time_sleep (dict_get (response_delay (get_auto_responder s)) (1 / 2)) s of
        (Inl e, s1) \<Rightarrow> finish_send session_name window_index resp (Inl e, s1)
      | (Inr u, s1) \<Rightarrow> (AfterSleep, s1))"
| "send_response_step w session_name window_index resp AfterSleep s =
     finish_send session_name window_index resp
       (case subprocess_run w False (SendKeys session_name window_index ''Enter'') s of
          (Inl e, s1) \<Rightarrow> (Inl e, s1)
        | (Inr out, s1) \<Rightarrow> (Inr ''direct tmux'', s1))"
| "send_response_step w session_name window_index resp (Returned b) s = (Returned b, s)"
| "send_response_step w session_name window_index resp (Raised e) s = (Raised e, s)"

text \<open>Two threads, both in \<open>send_response\<close> with their own arguments, sharing the
  object; a schedule says which thread moves next.\<close>

datatype thread_id = First | Second

record send_args =
  sa_session :: string
  sa_window :: int
  sa_response :: string

fun interleave ::
  "world \<Rightarrow> send_args \<Rightarrow> send_args \<Rightarrow> thread_id list \<Rightarrow>
     send_pc \<times> send_pc \<times> responder \<Rightarrow> send_pc \<times> send_pc \<times> responder" where
  "interleave w a1 a2 [] c = c"
| "interleave w a1 a2 (First # sched) (p1, p2, s) =
     (case send_response_step w (sa_session a1) (sa_window a1) (sa_response a1) p1 s of
        (p1', s') \<Rightarrow> interleave w a1 a2 sched (p1', p2, s'))"
| "interleave w a1 a2 (Second # sched) (p1, p2, s) =
     (case send_response_step w (sa_session a2) (sa_window a2) (sa_response a2) p2 s of
        (p2', s') \<Rightarrow> interleave w a1 a2 sched (p1, p2', s'))"

text \<open>The first command \<open>send_response\<close> issues.\<close>

definition first_send :: "world \<Rightarrow> send_args \<Rightarrow> cmd" where
  "first_send w a =
     (if send_script_exists w
      then SendScript (sa_session a) (sa_window a) (sa_response a)
      else SendKeys (sa_session a) (sa_window a) (sa_response a))"

definition in_flight :: "send_pc \<Rightarrow> bool" where
  "in_flight p = (p = AfterKeys \<or> p = AfterSleep)"

text \<open>What a thread that is done hands back to its caller.\<close>

fun outcome_of :: "send_pc \<Rightarrow> (pyexc + bool) option" where
  "outcome_of (Returned b) = Some (Inr b)"
| "outcome_of (Raised e) = Some (Inl e)"
| "outcome_of p = None"

text \<open>One thread run on its own: three steps reach the end from the start.\<close>

definition send_response_alone ::
  "world \<Rightarrow> string \<Rightarrow> int \<Rightarrow> string \<Rightarrow> responder \<Rightarrow> send_pc \<times> responder" where
  "send_response_alone w session_name window_index resp s =
     (case send_response_step w session_name window_index resp AtStart s of
        (p1, s1) \<Rightarrow>
          (case send_response_step w session_name window_index resp p1 s1 of
             (p2, s2) \<Rightarrow> send_response_step w session_name window_index resp p2 s2))"

section \<open>Concrete environments\<close>

subsection \<open>A regex engine for the catalogue's pattern syntax\<close>

text \<open>
  To run the responder on examples, \<open>re.search\<close> needs an executable instance.
  \<open>re_search_fragment\<close> implements Python's \<open>re.search\<close> for the syntax the
  pattern catalogue uses: ordinary ASCII characters, a backslash before an ASCII
  punctuation character, \<open>\s\<close>, and \<open>*\<close> after any of these, matched against text of
  code points below 256. It is library behaviour written out, not code of the
  repository; a pattern outside this syntax is answered with \<open>ReError\<close>, and the
  examples below use patterns inside it only. The general theorems hold for every
  \<open>re_search\<close>.
\<close>

datatype re_atom = Lit char | WhiteSpace

definition re_special :: "char \<Rightarrow> bool" where
  "re_special c = (c \<in> set ''.^$*+?{}[]|()'' \<or> c = CHR 0x5C)"

definition is_alnum :: "char \<Rightarrow> bool" where
  "is_alnum c =
     (c \<in> set ''abcdefghijklmnopqrstuvwxyzABCDEFGHIJKLMNOPQRSTUVWXYZ0123456789'')"

text \<open>A character that stands for itself in a pattern of the fragment.\<close>

definition is_literal :: "char \<Rightarrow> bool" where
  "is_literal c = (\<not> re_special c \<and> of_char c < (128 :: nat))"

text \<open>What may follow a backslash: \<open>s\<close> for white space, or a punctuation character
  that then stands for itself.\<close>

definition escaped :: "char \<Rightarrow> re_atom option" where
  "escaped d =
     (if d = CHR ''s'' then Some WhiteSpace
      else if is_alnum d \<or> \<not> of_char d < (128 :: nat) then None
      else Some (Lit d))"

text \<open>A pattern as a sequence of atoms, each marked when a \<open>*\<close> follows it; \<open>None\<close>
  for a pattern outside the syntax.\<close>

fun parse_fragment :: "string \<Rightarrow> (re_atom \<times> bool) list option" where
  "parse_fragment [] = Some []"
| "parse_fragment [c] = (if is_literal c then Some [(Lit c, False)] else None)"
| "parse_fragment (c # d # cs) =
     (if c = CHR 0x5C then
        (case escaped d of
           None \<Rightarrow> None
         | Some a \<Rightarrow>
             (case cs of
                [] \<Rightarrow> Some [(a, False)]
              | e # es \<Rightarrow>
                  if e = CHR ''*''
                  then map_option ((#) (a, True)) (parse_fragment es)
                  else map_option ((#) (a, False)) (parse_fragment (e # es))))
      else if \<not> is_literal c then None
      else if d = CHR ''*'' then map_option ((#) (Lit c, True)) (parse_fragment cs)
      else map_option ((#) (Lit c, False)) (parse_fragment (d # cs)))"

definition ascii_lower :: "char \<Rightarrow> char" where
  "ascii_lower c =
     (case map_of (zip ''ABCDEFGHIJKLMNOPQRSTUVWXYZ'' ''abcdefghijklmnopqrstuvwxyz'') c of
        None \<Rightarrow> c
      | Some l \<Rightarrow> l)"

text \<open>\<open>\s\<close> in a \<open>str\<close> pattern: the characters of \<open>str.isspace\<close>.\<close>

definition re_space :: "char \<Rightarrow> bool" where
  "re_space c = py_isspace c"

fun atom_matches :: "bool \<Rightarrow> re_atom \<Rightarrow> char \<Rightarrow> bool" where
  "atom_matches ic (Lit x) c = (if ic then ascii_lower x = ascii_lower c else x = c)"
| "atom_matches ic WhiteSpace c = re_space c"

fun match_here :: "bool \<Rightarrow> (re_atom \<times> bool) list \<Rightarrow> string \<Rightarrow> bool" where
  "match_here ic [] cs = True"
| "match_here ic ((a, False) # items) [] = False"
| "match_here ic ((a, False) # items) (c # cs) =
     (atom_matches ic a c \<and> match_here ic items cs)"
| "match_here ic ((a, True) # items) [] = match_here ic items []"
| "match_here ic ((a, True) # items) (c # cs) =
     (match_here ic items (c # cs)
      \<or> (atom_matches ic a c \<and> match_here ic ((a, True) # items) cs))"

fun search_from :: "bool \<Rightarrow> (re_atom \<times> bool) list \<Rightarrow> string \<Rightarrow> bool" where
  "search_from ic items [] = match_here ic items []"
| "search_from ic items (c # cs) =
     (match_here ic items (c # cs) \<or> search_from ic items cs)"

definition re_search_fragment :: "string \<Rightarrow> string \<Rightarrow> re_flag set \<Rightarrow> pyexc + bool" where
  "re_search_fragment p content flags =
     (case parse_fragment p of
        None \<Rightarrow> Inl (ReError p)
      | Some items \<Rightarrow> Inr (search_from (IGNORECASE \<in> flags) items content))"

subsection \<open>Responders and tmux sessions to run the model on\<close>

text \<open>The object after \<open>__init__\<close> has stored the loaded configuration (a fresh
  dictionary, here at address 0) and \<open>start_for_session\<close> has set \<open>running\<close>.\<close>

definition started :: "config \<Rightarrow> responder" where
  "started conf =
     \<lparr>heap = (\<lambda>r. \<lparr>auto_responder = None\<rparr>)(0 := conf), config_ref = 0, running = True,
      response_log = [], clock = 0, trace = []\<rparr>"

text \<open>A session with windows 0 and 1 whose panes show the two given captures; every
  \<open>send-keys\<close> succeeds and the helper script is absent.\<close>

definition two_windows :: "proc_outcome \<Rightarrow> proc_outcome \<Rightarrow> world" where
  "two_windows pane0 pane1 =
     \<lparr>run = (\<lambda>c. case c of
                 ListWindows sn \<Rightarrow> Exited 0 (''0'' @ [CHR 0x0A] @ ''1'' @ [CHR 0x0A])
               | CapturePane sn i n \<Rightarrow> (if i = 0 then pane0 else pane1)
               | SendScript sn i r \<Rightarrow> Exited 0 []
               | SendKeys sn i r \<Rightarrow> Exited 0 []),
      re_search = re_search_fragment,
      send_script_exists = False\<rparr>"

text \<open>A pane that shows a dangerous command next to a prompt of an enabled category,
  and a pane with prompts of two categories.\<close>

definition dangerous_pane :: world where
  "dangerous_pane =
     two_windows (Exited 0 ''About to rm -rf /data. Apply these changes? (yes/no)'') (Exited 0 [])"

definition two_prompts_pane :: world where
  "two_prompts_pane =
     two_windows (Exited 0 ''Save file? Confirm? (yes/no)'') (Exited 0 [])"

text \<open>A pane with a git prompt and a prompt of another category.\<close>

definition git_and_continue_pane :: world where
  "git_and_continue_pane =
     two_windows (Exited 0 ''Commit changes? Do you want to continue?'') (Exited 0 [])"

text \<open>A tmux in which the session does not exist: every command exits with status 1.\<close>

definition no_session :: world where
  "no_session =
     \<lparr>run = (\<lambda>c. Exited 1 []), re_search = re_search_fragment, send_script_exists = False\<rparr>"

text \<open>The \<open>pm_orchestrator\<close> preset as a configuration file may hold it, with
  \<open>skip_dangerous_operations\<close> switched off; and a pane that names production next to
  a file prompt.\<close>

definition no_skip_config :: config where
  "no_skip_config =
     (let conf = get_preset_config ''pm_orchestrator'';
          a = dict_get (auto_responder conf) empty_auto_responder
      in conf\<lparr>auto_responder :=
           Some (a\<lparr>safety_controls :=
             Some (SAFETY_CONTROLS\<lparr>skip_dangerous_operations := Some False\<rparr>)\<rparr>)\<rparr>)"

definition production_pane :: world where
  "production_pane =
     two_windows (Exited 0 ''Deploy to production. Apply these changes? (yes/no)'')
       (Exited 0 [])"


text \<open>A pane with a git prompt only.\<close>

definition commit_pane :: world where
  "commit_pane = two_windows (Exited 0 ''Commit changes?'') (Exited 0 [])"

text \<open>A pane with a confirmation prompt, and the call \<open>send_response("dev", 0, "1")\<close>
  that answers it.\<close>

definition confirm_pane :: world where
  "confirm_pane = two_windows (Exited 0 ''Confirm? (yes/no)'') (Exited 0 [])"

definition answer_one :: send_args where
  "answer_one = \<lparr>sa_session = ''dev'', sa_window = 0, sa_response = ''1''\<rparr>"

text \<open>A machine without tmux: starting any command raises \<open>FileNotFoundError\<close>, an
  \<open>OSError\<close>. And a tmux whose listing prints a window name.\<close>

definition tmux_missing :: world where
  "tmux_missing =
     \<lparr>run = (\<lambda>c. Raises (OSError ''No such file or directory: tmux'')),
      re_search = re_search_fragment, send_script_exists = False\<rparr>"

definition named_listing :: world where
  "named_listing =
     \<lparr>run = (\<lambda>c. Exited 0 ''main''), re_search = re_search_fragment,
      send_script_exists = False\<rparr>"

text \<open>A pane that shows a git prompt with a yes/no menu.\<close>

definition git_menu_pane :: world where
  "git_menu_pane =
     two_windows
       (Exited 0 (''Commit changes?'' @ [CHR 0x0A] @ ''1. yes'' @ [CHR 0x0A] @ ''2. no''))
       (Exited 0 [])"

section \<open>Properties\<close>

subsection \<open>What the steps leave unchanged\<close>

lemma get_auto_responder_frame [simp]:
  "get_auto_responder (s\<lparr>trace := t\<rparr>) = get_auto_responder s"
  "get_auto_responder (s\<lparr>response_log := l\<rparr>) = get_auto_responder s"
  "get_auto_responder (s\<lparr>clock := k\<rparr>) = get_auto_responder s"
  "get_auto_responder (s\<lparr>running := b\<rparr>) = get_auto_responder s"
  by (simp_all add: get_auto_responder_def cfg_def)

lemma subprocess_run_snd [simp]:
  "snd (subprocess_run w ch c s) = s\<lparr>trace := trace s @ [Run c]\<rparr>"
  by (simp add: subprocess_run_def Let_def split: proc_outcome.splits)

lemma capture_snd [simp]:
  "snd (capture_window_content w sn wi n s) = s\<lparr>trace := trace s @ [Run (CapturePane sn wi n)]\<rparr>"
proof -
  obtain r s' where r: "subprocess_run w True (CapturePane sn wi n) s = (r, s')"
    by (cases "subprocess_run w True (CapturePane sn wi n) s")
  then have "s' = s\<lparr>trace := trace s @ [Run (CapturePane sn wi n)]\<rparr>"
    using subprocess_run_snd[of w True "CapturePane sn wi n" s] by simp
  with r show ?thesis
    by (simp add: capture_window_content_def split: sum.splits pyexc.splits)
qed

lemma is_dangerous_frame [simp]:
  "is_dangerous_operation w (s\<lparr>trace := t\<rparr>) c = is_dangerous_operation w s c"
  by (simp add: is_dangerous_operation_def)

lemma log_response_frame [simp]:
  "trace (log_response sn wi r st c d s) = trace s"
  "running (log_response sn wi r st c d s) = running s"
  "heap (log_response sn wi r st c d s) = heap s"
  "config_ref (log_response sn wi r st c d s) = config_ref s"
  by (simp_all add: log_response_def)

lemma first_match_hit:
  "\<exists>p\<in>set ps. re_search w p c fl = Inr True \<Longrightarrow> first_match w fl ps c \<noteq> Inr None"
  by (induction ps) (auto split: sum.splits bool.splits)

lemma first_match_Some:
  "first_match w fl ps c = Inr (Some p) \<Longrightarrow> p \<in> set ps \<and> re_search w p c fl = Inr True"
  by (induction ps) (auto split: sum.splits bool.splits if_splits)

lemma first_match_first:
  "\<forall>q\<in>set ps1. re_search w q c fl = Inr False \<Longrightarrow> re_search w p c fl = Inr True
     \<Longrightarrow> first_match w fl (ps1 @ p # ps2) c = Inr (Some p)"
  by (induction ps1) auto

lemma first_match_none:
  "\<forall>q\<in>set ps. re_search w q c fl = Inr False \<Longrightarrow> first_match w fl ps c = Inr None"
  by (induction ps) auto

lemma is_dangerous_dangerous_hit:
  assumes "dict_get (skip_dangerous_operations (safety_of s)) True"
    and "\<exists>p\<in>set (dict_get (dangerous_patterns (safety_of s)) []).
           re_search w p c {IGNORECASE} = Inr True"
  shows "is_dangerous_operation w s c \<noteq> Inr False"
  using assms first_match_hit[of "dict_get (dangerous_patterns (safety_of s)) []" w c "{IGNORECASE}"]
  by (auto simp: is_dangerous_operation_def Let_def split: sum.splits option.splits)

lemma is_dangerous_manual_hit:
  assumes "dict_get (skip_dangerous_operations (safety_of s)) True"
    and "\<exists>p\<in>set (dict_get (require_manual_approval (safety_of s)) []).
           re_search w p c {IGNORECASE} = Inr True"
  shows "is_dangerous_operation w s c \<noteq> Inr False"
  using assms first_match_hit[of "dict_get (require_manual_approval (safety_of s)) []" w c "{IGNORECASE}"]
  by (auto simp: is_dangerous_operation_def Let_def split: sum.splits option.splits)

lemma is_dangerous_flag_off:
  "\<not> dict_get (skip_dangerous_operations (safety_of s)) True \<Longrightarrow>
     is_dangerous_operation w s c = Inr False"
  by (simp add: is_dangerous_operation_def)

lemma check_cases:
  assumes "fst (capture_window_content w sn wi 20 s) = Inr content"
  shows "check_for_confirmation_prompt w sn wi s =
     (let s1 = s\<lparr>trace := trace s @ [Run (CapturePane sn wi 20)]\<rparr> in
      if content = [] then (Inr None, s1)
      else case is_dangerous_operation w s content of
             Inl e \<Rightarrow> (Inl e, s1)
           | Inr True \<Rightarrow> (Inr None, log_response sn wi ''SKIPPED'' ''Dangerous operation detected'' [] [] s1)
           | Inr False \<Rightarrow> (scan_categories w (categories_of s) content, s1))"
proof -
  obtain r s' where r: "capture_window_content w sn wi 20 s = (r, s')"
    by (cases "capture_window_content w sn wi 20 s")
  with assms have "r = Inr content" by simp
  moreover from r have "s' = s\<lparr>trace := trace s @ [Run (CapturePane sn wi 20)]\<rparr>"
    using capture_snd[of w sn wi 20 s] by simp
  ultimately show ?thesis using r
    by (simp add: check_for_confirmation_prompt_def Let_def split: sum.splits bool.splits)
qed

lemma check_raise:
  assumes "fst (capture_window_content w sn wi 20 s) = Inl e"
  shows "check_for_confirmation_prompt w sn wi s =
     (Inl e, s\<lparr>trace := trace s @ [Run (CapturePane sn wi 20)]\<rparr>)"
proof -
  obtain r s' where r: "capture_window_content w sn wi 20 s = (r, s')"
    by (cases "capture_window_content w sn wi 20 s")
  with assms have "r = Inl e" by simp
  moreover from r have "s' = s\<lparr>trace := trace s @ [Run (CapturePane sn wi 20)]\<rparr>"
    using capture_snd[of w sn wi 20 s] by simp
  ultimately show ?thesis using r
    by (simp add: check_for_confirmation_prompt_def Let_def)
qed

lemma process_window_no_prompt:
  assumes "\<forall>info. fst (check_for_confirmation_prompt w sn wi s) \<noteq> Inr (Some info)"
  shows "snd (process_window w sn wi s) = snd (check_for_confirmation_prompt w sn wi s)"
  using assms
  by (cases "check_for_confirmation_prompt w sn wi s")
     (auto simp: process_window_def split: sum.splits option.splits)

subsection \<open>The pattern loops\<close>

lemma scan_skip_prefix:
  "\<forall>kc\<in>set pre. \<not> dict_get (enabled (snd kc)) False
       \<or> (\<forall>q\<in>set (dict_get (patterns (snd kc)) []).
             re_search w q c {IGNORECASE, MULTILINE} = Inr False)
   \<Longrightarrow> scan_categories w (pre @ rest) c = scan_categories w rest c"
proof (induction pre)
  case Nil
  then show ?case by simp
next
  case (Cons kc pre)
  obtain k cc where kc: "kc = (k, cc)" by (cases kc)
  from Cons.prems have rest: "scan_categories w (pre @ rest) c = scan_categories w rest c"
    by (intro Cons.IH) simp
  from Cons.prems kc have "\<not> dict_get (enabled cc) False
       \<or> first_match w {IGNORECASE, MULTILINE} (dict_get (patterns cc) []) c = Inr None"
    by (auto intro: first_match_none)
  with rest kc show ?case by auto
qed

lemma scan_Some:
  "scan_categories w cs c = Inr (Some info) \<Longrightarrow>
     \<exists>kc\<in>set cs. dict_get (enabled (snd kc)) False
        \<and> pi_category info = fst kc
        \<and> pi_response info = dict_get (response (snd kc)) ''1''
        \<and> pi_description info = dict_get (description (snd kc)) []
        \<and> pattern_matched info \<in> set (dict_get (patterns (snd kc)) [])
        \<and> re_search w (pattern_matched info) c {IGNORECASE, MULTILINE} = Inr True"
proof (induction cs)
  case Nil
  then show ?case by simp
next
  case (Cons kc cs)
  obtain k cc where kc: "kc = (k, cc)" by (cases kc)
  show ?case
  proof (cases "dict_get (enabled cc) False")
    case False
    with Cons kc show ?thesis by auto
  next
    case True
    show ?thesis
    proof (cases "first_match w {IGNORECASE, MULTILINE} (dict_get (patterns cc) []) c")
      case (Inl e)
      with Cons.prems kc True show ?thesis by simp
    next
      case (Inr m)
      show ?thesis
      proof (cases m)
        case None
        with Inr Cons kc True show ?thesis by auto
      next
        case (Some p)
        with Inr Cons.prems kc True have info: "info = \<lparr>pi_response = dict_get (response cc) ''1'',
                        pi_category = k,
                        pi_description = dict_get (description cc) [],
                        pattern_matched = p\<rparr>" by simp
        from Some Inr have "p \<in> set (dict_get (patterns cc) [])
           \<and> re_search w p c {IGNORECASE, MULTILINE} = Inr True"
          by (auto dest: first_match_Some)
        with info kc True show ?thesis by simp
      qed
    qed
  qed
qed

lemma scan_first:
  assumes pre: "\<forall>kc\<in>set pre. \<not> dict_get (enabled (snd kc)) False
       \<or> (\<forall>q\<in>set (dict_get (patterns (snd kc)) []).
             re_search w q c {IGNORECASE, MULTILINE} = Inr False)"
    and en: "dict_get (enabled cc) False"
    and pats: "dict_get (patterns cc) [] = ps1 @ p # ps2"
    and ps1: "\<forall>q\<in>set ps1. re_search w q c {IGNORECASE, MULTILINE} = Inr False"
    and p: "re_search w p c {IGNORECASE, MULTILINE} = Inr True"
  shows "scan_categories w (pre @ (name, cc) # post) c =
     Inr (Some \<lparr>pi_response = dict_get (response cc) ''1'', pi_category = name,
                pi_description = dict_get (description cc) [], pattern_matched = p\<rparr>)"
proof -
  have "first_match w {IGNORECASE, MULTILINE} (dict_get (patterns cc) []) c = Inr (Some p)"
    using pats first_match_first[OF ps1 p] by simp
  with en have "scan_categories w ((name, cc) # post) c =
     Inr (Some \<lparr>pi_response = dict_get (response cc) ''1'', pi_category = name,
                pi_description = dict_get (description cc) [], pattern_matched = p\<rparr>)"
    by simp
  with scan_skip_prefix[OF pre] show ?thesis by simp
qed

subsection \<open>Safety before classification\<close>

text \<open>
  C1. When \<open>skip_dangerous_operations\<close> is set (or absent, its default being true) and
  the captured text matches one of the \<open>dangerous_patterns\<close>, the check of the window
  never returns a prompt to answer: it returns \<open>None\<close>, or the exception that
  the safety scan itself raised. Nothing is assumed about the categories, so a
  matching pattern of an enabled category changes nothing; and the window's pass
  through the loop runs the capture command and no other, so nothing is sent.
\<close>

theorem dangerous_text_is_never_answered:
  assumes flag: "dict_get (skip_dangerous_operations (safety_of s)) True"
    and cap: "fst (capture_window_content w sn wi 20 s) = Inr content"
    and hit: "\<exists>p\<in>set (dict_get (dangerous_patterns (safety_of s)) []).
                re_search w p content {IGNORECASE} = Inr True"
  shows "(\<forall>info. fst (check_for_confirmation_prompt w sn wi s) \<noteq> Inr (Some info))
       \<and> (fst (check_for_confirmation_prompt w sn wi s) = Inr None
          \<or> (\<exists>e. is_dangerous_operation w s content = Inl e
                \<and> fst (check_for_confirmation_prompt w sn wi s) = Inl e))
       \<and> trace (snd (process_window w sn wi s)) = trace s @ [Run (CapturePane sn wi 20)]"
proof -
  have danger: "is_dangerous_operation w s content \<noteq> Inr False"
    using flag hit by (rule is_dangerous_dangerous_hit)
  have res: "fst (check_for_confirmation_prompt w sn wi s) = Inr None
          \<or> (\<exists>e. is_dangerous_operation w s content = Inl e
                \<and> fst (check_for_confirmation_prompt w sn wi s) = Inl e)"
    using danger by (auto simp: check_cases[OF cap] Let_def split: sum.splits bool.splits)
  then have no: "\<forall>info. fst (check_for_confirmation_prompt w sn wi s) \<noteq> Inr (Some info)"
    by auto
  have "trace (snd (check_for_confirmation_prompt w sn wi s)) = trace s @ [Run (CapturePane sn wi 20)]"
    by (auto simp: check_cases[OF cap] Let_def split: sum.splits bool.splits)
  with process_window_no_prompt[OF no] res no show ?thesis by simp
qed

theorem dangerous_text_is_never_answered_witness:
  "dict_get (skip_dangerous_operations (safety_of (started (get_preset_config ''autonomous_agent'')))) True
   \<and> (\<exists>p\<in>set (dict_get (dangerous_patterns
                  (safety_of (started (get_preset_config ''autonomous_agent'')))) []).
         re_search dangerous_pane p ''About to rm -rf /data. Apply these changes? (yes/no)''
           {IGNORECASE} = Inr True)
   \<and> re_search dangerous_pane (''Apply these changes'' @ bs @ ''?'')
         ''About to rm -rf /data. Apply these changes? (yes/no)'' {IGNORECASE, MULTILINE} = Inr True
   \<and> fst (check_for_confirmation_prompt dangerous_pane ''dev'' 0
            (started (get_preset_config ''autonomous_agent''))) = Inr None
   \<and> trace (snd (process_window dangerous_pane ''dev'' 0
            (started (get_preset_config ''autonomous_agent'')))) = [Run (CapturePane ''dev'' 0 20)]"
proof -
  let ?s = "started (get_preset_config ''autonomous_agent'')"
  let ?c = "''About to rm -rf /data. Apply these changes? (yes/no)''"
  have flag: "dict_get (skip_dangerous_operations (safety_of ?s)) True"
    by code_simp
  have cap: "fst (capture_window_content dangerous_pane ''dev'' 0 20 ?s) = Inr ?c"
    by code_simp
  have hit: "\<exists>p\<in>set (dict_get (dangerous_patterns (safety_of ?s)) []).
         re_search dangerous_pane p ?c {IGNORECASE} = Inr True"
    by code_simp
  have cat: "re_search dangerous_pane (''Apply these changes'' @ bs @ ''?'') ?c
       {IGNORECASE, MULTILINE} = Inr True"
    by code_simp
  have noexc: "is_dangerous_operation dangerous_pane ?s ?c = Inr True"
    by code_simp
  have tr: "trace ?s = []" by code_simp
  from dangerous_text_is_never_answered[OF flag cap hit] noexc tr flag hit cat
  show ?thesis by simp
qed

subsection \<open>First enabled category wins\<close>

text \<open>
  C3. For a non-empty capture on which the safety check answers no: if the categories
  before \<open>name\<close> in the dictionary's order are disabled or have no matching
  pattern, \<open>name\<close> is enabled, and \<open>p\<close> is its first matching pattern, then the
  check returns \<open>name\<close>, its response and \<open>p\<close>, whatever the categories after it
  are. And whatever is returned comes from an enabled category, one of whose patterns
  matches: a disabled category is never answered for.
\<close>

theorem first_enabled_category_wins:
  assumes cap: "fst (capture_window_content w sn wi 20 s) = Inr content"
    and ne: "content \<noteq> []"
    and safe: "is_dangerous_operation w s content = Inr False"
  shows "(\<forall>pre name cc post ps1 p ps2.
            categories_of s = pre @ (name, cc) # post
            \<and> (\<forall>kc\<in>set pre. \<not> dict_get (enabled (snd kc)) False
                  \<or> (\<forall>q\<in>set (dict_get (patterns (snd kc)) []).
                        re_search w q content {IGNORECASE, MULTILINE} = Inr False))
            \<and> dict_get (enabled cc) False
            \<and> dict_get (patterns cc) [] = ps1 @ p # ps2
            \<and> (\<forall>q\<in>set ps1. re_search w q content {IGNORECASE, MULTILINE} = Inr False)
            \<and> re_search w p content {IGNORECASE, MULTILINE} = Inr True
          \<longrightarrow> fst (check_for_confirmation_prompt w sn wi s) =
                Inr (Some \<lparr>pi_response = dict_get (response cc) ''1'', pi_category = name,
                           pi_description = dict_get (description cc) [],
                           pattern_matched = p\<rparr>))
       \<and> (\<forall>info. fst (check_for_confirmation_prompt w sn wi s) = Inr (Some info)
            \<longrightarrow> (\<exists>kc\<in>set (categories_of s).
                   dict_get (enabled (snd kc)) False
                   \<and> pi_category info = fst kc
                   \<and> pi_response info = dict_get (response (snd kc)) ''1''
                   \<and> pattern_matched info \<in> set (dict_get (patterns (snd kc)) [])
                   \<and> re_search w (pattern_matched info) content {IGNORECASE, MULTILINE}
                       = Inr True))"
proof -
  have res: "fst (check_for_confirmation_prompt w sn wi s)
               = scan_categories w (categories_of s) content"
    using ne safe by (simp add: check_cases[OF cap] Let_def)
  show ?thesis
  proof (intro conjI allI impI)
    fix pre name cc post ps1 p ps2
    assume h: "categories_of s = pre @ (name, cc) # post
            \<and> (\<forall>kc\<in>set pre. \<not> dict_get (enabled (snd kc)) False
                  \<or> (\<forall>q\<in>set (dict_get (patterns (snd kc)) []).
                        re_search w q content {IGNORECASE, MULTILINE} = Inr False))
            \<and> dict_get (enabled cc) False
            \<and> dict_get (patterns cc) [] = ps1 @ p # ps2
            \<and> (\<forall>q\<in>set ps1. re_search w q content {IGNORECASE, MULTILINE} = Inr False)
            \<and> re_search w p content {IGNORECASE, MULTILINE} = Inr True"
    from h have pre: "\<forall>kc\<in>set pre. \<not> dict_get (enabled (snd kc)) False
                  \<or> (\<forall>q\<in>set (dict_get (patterns (snd kc)) []).
                        re_search w q content {IGNORECASE, MULTILINE} = Inr False)"
      by (elim conjE)
    from h have en: "dict_get (enabled cc) False" by (elim conjE)
    from h have pats: "dict_get (patterns cc) [] = ps1 @ p # ps2" by (elim conjE)
    from h have ps1: "\<forall>q\<in>set ps1. re_search w q content {IGNORECASE, MULTILINE} = Inr False"
      by (elim conjE)
    from h have p: "re_search w p content {IGNORECASE, MULTILINE} = Inr True" by (elim conjE)
    have "scan_categories w (pre @ (name, cc) # post) content =
       Inr (Some \<lparr>pi_response = dict_get (response cc) ''1'', pi_category = name,
                pi_description = dict_get (description cc) [], pattern_matched = p\<rparr>)"
      by (rule scan_first[OF pre en pats ps1 p])
    with h res show "fst (check_for_confirmation_prompt w sn wi s) =
                Inr (Some \<lparr>pi_response = dict_get (response cc) ''1'', pi_category = name,
                           pi_description = dict_get (description cc) [],
                           pattern_matched = p\<rparr>)"
      by simp
  next
    fix info
    assume "fst (check_for_confirmation_prompt w sn wi s) = Inr (Some info)"
    with res have "scan_categories w (categories_of s) content = Inr (Some info)" by simp
    from scan_Some[OF this]
    show "\<exists>kc\<in>set (categories_of s).
                   dict_get (enabled (snd kc)) False
                   \<and> pi_category info = fst kc
                   \<and> pi_response info = dict_get (response (snd kc)) ''1''
                   \<and> pattern_matched info \<in> set (dict_get (patterns (snd kc)) [])
                   \<and> re_search w (pattern_matched info) content {IGNORECASE, MULTILINE}
                       = Inr True"
      by blast
  qed
qed

theorem first_enabled_category_wins_witness:
  "fst (check_for_confirmation_prompt two_prompts_pane ''dev'' 0
          (started (get_preset_config ''conservative''))) =
     Inr (Some \<lparr>pi_response = ''1'', pi_category = ''general_confirmations'',
                pi_description = ''General yes/no confirmations'',
                pattern_matched = ''Confirm'' @ bs @ ''?'' @ bs @ ''s*'' @ bs @ ''(yes/no'' @ bs @ '')''\<rparr>)
   \<and> re_search two_prompts_pane (''Save file'' @ bs @ ''?'') ''Save file? Confirm? (yes/no)''
        {IGNORECASE, MULTILINE} = Inr True
   \<and> map_of (categories_of (started (get_preset_config ''conservative''))) ''file_operations''
        = Some \<lparr>enabled = Some False, description = Some ''File creation, editing, saving'',
                patterns = Some (c_patterns (snd (GRANULAR_CONTROLS ! 0))),
                response = Some ''1''\<rparr>"
proof -
  let ?s = "started (get_preset_config ''conservative'')"
  let ?c = "''Save file? Confirm? (yes/no)''"
  let ?cs = "map (generate_control ''conservative'') GRANULAR_CONTROLS"
  have cap: "fst (capture_window_content two_prompts_pane ''dev'' 0 20 ?s) = Inr ?c"
    by code_simp
  have ne: "?c \<noteq> []" by simp
  have safe: "is_dangerous_operation two_prompts_pane ?s ?c = Inr False"
    by code_simp
  have cats: "categories_of ?s = take 2 ?cs @ (''general_confirmations'', snd (?cs ! 2)) # drop 3 ?cs"
    by code_simp
  have pre: "\<forall>kc\<in>set (take 2 ?cs). \<not> dict_get (enabled (snd kc)) False
                  \<or> (\<forall>q\<in>set (dict_get (patterns (snd kc)) []).
                        re_search two_prompts_pane q ?c {IGNORECASE, MULTILINE} = Inr False)"
    by code_simp
  have en: "dict_get (enabled (snd (?cs ! 2))) False" by code_simp
  have pats: "dict_get (patterns (snd (?cs ! 2))) [] =
      [''1'' @ bs @ ''. yes'' @ bs @ ''s*2'' @ bs @ ''. no''] @
      (''Confirm'' @ bs @ ''?'' @ bs @ ''s*'' @ bs @ ''(yes/no'' @ bs @ '')'') #
      [''Continue'' @ bs @ ''?'' @ bs @ ''s*'' @ bs @ ''(y/n'' @ bs @ '')'',
       ''Proceed'' @ bs @ ''?'' @ bs @ ''s*'' @ bs @ ''(yes/no'' @ bs @ '')'']"
    by code_simp
  have ps1: "\<forall>q\<in>set [''1'' @ bs @ ''. yes'' @ bs @ ''s*2'' @ bs @ ''. no''].
      re_search two_prompts_pane q ?c {IGNORECASE, MULTILINE} = Inr False"
    by code_simp
  have p: "re_search two_prompts_pane
      (''Confirm'' @ bs @ ''?'' @ bs @ ''s*'' @ bs @ ''(yes/no'' @ bs @ '')'') ?c
      {IGNORECASE, MULTILINE} = Inr True"
    by code_simp
  have r: "dict_get (response (snd (?cs ! 2))) ''1'' = ''1''" by code_simp
  have d: "dict_get (description (snd (?cs ! 2))) [] = ''General yes/no confirmations''"
    by code_simp
  have other: "re_search two_prompts_pane (''Save file'' @ bs @ ''?'') ?c
        {IGNORECASE, MULTILINE} = Inr True"
    by code_simp
  have dis: "map_of (categories_of ?s) ''file_operations''
        = Some \<lparr>enabled = Some False, description = Some ''File creation, editing, saving'',
                patterns = Some (c_patterns (snd (GRANULAR_CONTROLS ! 0))),
                response = Some ''1''\<rparr>"
    by code_simp
  from first_enabled_category_wins[OF cap ne safe, THEN conjunct1, rule_format,
      OF conjI[OF cats conjI[OF pre conjI[OF en conjI[OF pats conjI[OF ps1 p]]]]]]
  have "fst (check_for_confirmation_prompt two_prompts_pane ''dev'' 0 ?s) =
                Inr (Some \<lparr>pi_response = dict_get (response (snd (?cs ! 2))) ''1'',
                           pi_category = ''general_confirmations'',
                           pi_description = dict_get (description (snd (?cs ! 2))) [],
                           pattern_matched = ''Confirm'' @ bs @ ''?'' @ bs @ ''s*'' @ bs @ ''(yes/no'' @ bs @ '')''\<rparr>)" .
  with r d other dis show ?thesis by simp
qed

subsection \<open>Presets\<close>

lemma get_preset_generate: "get_preset name = generate_preset_config name"
  by (simp add: get_preset_def PRESETS_def safe_development_def autonomous_agent_def
      conservative_def pm_orchestrator_def)

lemma generate_preset_config_Inr:
  "generate_preset_config name = Inr conf \<Longrightarrow>
     \<exists>info. map_of PRESET_INFO name = Some info \<and>
       conf = \<lparr>auto_responder = Some
            \<lparr>ar_enabled = Some True,
             check_interval = Some (p_check_interval info),
             response_delay = Some (p_response_delay info),
             log_responses = Some True,
             granular_controls = Some (map (generate_control name) GRANULAR_CONTROLS),
             safety_controls = Some SAFETY_CONTROLS\<rparr>\<rparr>"
  by (auto simp: generate_preset_config_def split: option.splits)

lemma generated_git_disabled:
  "map_of (map (generate_control name) GRANULAR_CONTROLS) ''git_operations'' = Some g
     \<Longrightarrow> enabled g = Some False"
  by (auto simp add: GRANULAR_CONTROLS_def generate_control_def)

lemma generated_git_present:
  "\<exists>g. map_of (map (generate_control name) GRANULAR_CONTROLS) ''git_operations'' = Some g"
  by (simp add: GRANULAR_CONTROLS_def generate_control_def)

lemma generated_keys_distinct:
  "distinct (map fst (map (generate_control name) GRANULAR_CONTROLS))"
  by (simp add: GRANULAR_CONTROLS_def generate_control_def)

lemma recognized_total:
  "name \<in> fst ` set PRESET_INFO \<Longrightarrow> \<exists>conf. generate_preset_config name = Inr conf"
  by (cases "map_of PRESET_INFO name") (auto simp: map_of_eq_None_iff generate_preset_config_def)

lemma generated_list_all2:
  "list_all2 (\<lambda>kc kctl. fst kc = fst kctl
        \<and> enabled (snd kc) = Some (name \<in> set (enabled_in (snd kctl)))
        \<and> patterns (snd kc) = Some (c_patterns (snd kctl))
        \<and> response (snd kc) = Some (c_response (snd kctl)))
     (map (generate_control name) GRANULAR_CONTROLS) GRANULAR_CONTROLS"
  by (simp add: list_all2_map1 generate_control_def list.rel_refl)

lemma scan_never_disabled_key:
  assumes dis: "\<forall>kc\<in>set cs. fst kc = k \<longrightarrow> \<not> dict_get (enabled (snd kc)) False"
    and res: "scan_categories w cs c = Inr (Some info)"
  shows "pi_category info \<noteq> k"
  using scan_Some[OF res] dis by auto

lemma generated_git_all_disabled:
  "\<forall>kc\<in>set (map (generate_control name) GRANULAR_CONTROLS).
      fst kc = ''git_operations'' \<longrightarrow> enabled (snd kc) = Some False"
  by (simp add: GRANULAR_CONTROLS_def generate_control_def)

text \<open>
  C8. Resolving a preset is a function of its name: two resolutions of the same name
  give the same configuration, the registry of legacy functions and the generator
  agree, and the categories of the result are those of the catalogue in the
  catalogue's order, each enabled exactly when the name is in its \<open>enabled_in\<close>
  list, with the catalogue's patterns and response.
\<close>

theorem preset_resolution_is_deterministic:
  assumes r1: "get_preset name = Inr c1" and r2: "get_preset name = Inr c2"
  shows "c1 = c2
       \<and> get_preset name = generate_preset_config name
       \<and> (\<exists>a cs. auto_responder c1 = Some a \<and> granular_controls a = Some cs
            \<and> list_all2 (\<lambda>kc kctl. fst kc = fst kctl
                   \<and> enabled (snd kc) = Some (name \<in> set (enabled_in (snd kctl)))
                   \<and> patterns (snd kc) = Some (c_patterns (snd kctl))
                   \<and> response (snd kc) = Some (c_response (snd kctl)))
                 cs GRANULAR_CONTROLS)"
proof -
  from r1 r2 have same: "c1 = c2" by simp
  from r1 have gen: "generate_preset_config name = Inr c1"
    by (simp add: get_preset_generate)
  from generate_preset_config_Inr[OF gen] obtain info where
    "map_of PRESET_INFO name = Some info \<and> c1 = \<lparr>auto_responder = Some
            \<lparr>ar_enabled = Some True,
             check_interval = Some (p_check_interval info),
             response_delay = Some (p_response_delay info),
             log_responses = Some True,
             granular_controls = Some (map (generate_control name) GRANULAR_CONTROLS),
             safety_controls = Some SAFETY_CONTROLS\<rparr>\<rparr>" ..
  then have "\<exists>a cs. auto_responder c1 = Some a \<and> granular_controls a = Some cs
            \<and> list_all2 (\<lambda>kc kctl. fst kc = fst kctl
                   \<and> enabled (snd kc) = Some (name \<in> set (enabled_in (snd kctl)))
                   \<and> patterns (snd kc) = Some (c_patterns (snd kctl))
                   \<and> response (snd kc) = Some (c_response (snd kctl)))
                 cs GRANULAR_CONTROLS"
    using generated_list_all2[of name] by simp
  with same show ?thesis by (simp add: get_preset_generate)
qed

theorem preset_resolution_is_deterministic_witness:
  "get_preset ''safe_development'' = Inr (get_preset_config ''safe_development'')
   \<and> (\<exists>a cs. auto_responder (get_preset_config ''safe_development'') = Some a
        \<and> granular_controls a = Some cs
        \<and> list_all2 (\<lambda>kc kctl. fst kc = fst kctl
               \<and> enabled (snd kc) = Some (''safe_development'' \<in> set (enabled_in (snd kctl)))
               \<and> patterns (snd kc) = Some (c_patterns (snd kctl))
               \<and> response (snd kc) = Some (c_response (snd kctl)))
             cs GRANULAR_CONTROLS)
   \<and> map (\<lambda>kc. (fst kc, enabled (snd kc)))
        (dict_get (granular_controls
           (dict_get (auto_responder (get_preset_config ''safe_development''))
              empty_auto_responder)) []) =
       [(''file_operations'', Some True), (''command_execution'', Some False),
        (''general_confirmations'', Some True), (''persistent_choices'', Some False),
        (''continue_operations'', Some True), (''package_management'', Some False),
        (''git_operations'', Some False)]"
proof -
  have r: "get_preset ''safe_development'' = Inr (get_preset_config ''safe_development'')"
    by code_simp
  have flags: "map (\<lambda>kc. (fst kc, enabled (snd kc)))
        (dict_get (granular_controls
           (dict_get (auto_responder (get_preset_config ''safe_development''))
              empty_auto_responder)) []) =
       [(''file_operations'', Some True), (''command_execution'', Some False),
        (''general_confirmations'', Some True), (''persistent_choices'', Some False),
        (''continue_operations'', Some True), (''package_management'', Some False),
        (''git_operations'', Some False)]"
    by code_simp
  from preset_resolution_is_deterministic[OF r r] r flags show ?thesis by blast
qed

text \<open>
  C10 as stated fails in its conclusion: a git prompt is answered when its text also
  matches a pattern of an enabled category. Under each of the four presets a pane
  that shows \<open>Commit changes?\<close> with the menu \<open>1. yes 2. no\<close> is answered \<open>1\<close>
  through \<open>general_confirmations\<close>, and the keys are sent.
\<close>

theorem no_preset_confirms_git_prompts_counterexample:
  "map fst PRESET_INFO
     = [''pm_orchestrator'', ''safe_development'', ''conservative'', ''autonomous_agent'']
   \<and> re_search git_menu_pane (''Commit changes'' @ bs @ ''?'')
        (''Commit changes?'' @ [CHR 0x0A] @ ''1. yes'' @ [CHR 0x0A] @ ''2. no'')
        {IGNORECASE, MULTILINE} = Inr True
   \<and> list_all
        (\<lambda>preset.
           fst (check_for_confirmation_prompt git_menu_pane ''dev'' 0
                  (started (get_preset_config preset)))
             = Inr (Some \<lparr>pi_response = ''1'', pi_category = ''general_confirmations'',
                          pi_description = ''General yes/no confirmations'',
                          pattern_matched =
                            ''1'' @ bs @ ''. yes'' @ bs @ ''s*2'' @ bs @ ''. no''\<rparr>)
           \<and> Run (SendKeys ''dev'' 0 ''1'')
               \<in> set (trace (snd (process_window git_menu_pane ''dev'' 0
                                     (started (get_preset_config preset))))))
        (map fst PRESET_INFO)"
  by code_simp

text \<open>
  C10, amended. The catalogue's \<open>git_operations\<close> entry has an empty \<open>enabled_in\<close> list,
  and for every name of \<open>PRESET_INFO\<close> the generated configuration has the responder
  enabled and \<open>git_operations\<close> disabled; scanning its categories never answers
  through \<open>git_operations\<close>, whatever the text and the regex engine.
\<close>

theorem every_preset_enables_responder_and_disables_git:
  assumes known: "name \<in> fst ` set PRESET_INFO"
  shows "map_option enabled_in (map_of GRANULAR_CONTROLS ''git_operations'') = Some []
       \<and> (\<exists>conf a cs g. generate_preset_config name = Inr conf
             \<and> auto_responder conf = Some a \<and> ar_enabled a = Some True
             \<and> granular_controls a = Some cs
             \<and> map_of cs ''git_operations'' = Some g \<and> enabled g = Some False
             \<and> (\<forall>w content info. scan_categories w cs content = Inr (Some info)
                    \<longrightarrow> pi_category info \<noteq> ''git_operations''))"
proof -
  let ?cs = "map (generate_control name) GRANULAR_CONTROLS"
  have empty: "map_option enabled_in (map_of GRANULAR_CONTROLS ''git_operations'') = Some []"
    by (simp add: GRANULAR_CONTROLS_def)
  from recognized_total[OF known] obtain conf where gen: "generate_preset_config name = Inr conf" ..
  from generate_preset_config_Inr[OF gen] obtain info where
    conf: "map_of PRESET_INFO name = Some info \<and> conf = \<lparr>auto_responder = Some
            \<lparr>ar_enabled = Some True,
             check_interval = Some (p_check_interval info),
             response_delay = Some (p_response_delay info),
             log_responses = Some True,
             granular_controls = Some ?cs,
             safety_controls = Some SAFETY_CONTROLS\<rparr>\<rparr>" ..
  from generated_git_present[of name] obtain g where g: "map_of ?cs ''git_operations'' = Some g" ..
  from generated_git_disabled[OF g] have gd: "enabled g = Some False" .
  have never: "\<forall>w content info. scan_categories w ?cs content = Inr (Some info)
                    \<longrightarrow> pi_category info \<noteq> ''git_operations''"
  proof (intro allI impI)
    fix w content info
    assume res: "scan_categories w ?cs content = Inr (Some info)"
    have "\<forall>kc\<in>set ?cs. fst kc = ''git_operations'' \<longrightarrow> \<not> dict_get (enabled (snd kc)) False"
      using generated_git_all_disabled[of name] by (simp add: dict_get_def)
    from scan_never_disabled_key[OF this res]
    show "pi_category info \<noteq> ''git_operations''" .
  qed
  from conf have "auto_responder conf = Some (the (auto_responder conf))
      \<and> ar_enabled (the (auto_responder conf)) = Some True
      \<and> granular_controls (the (auto_responder conf)) = Some ?cs"
    by simp
  with gen g gd never empty show ?thesis by blast
qed

theorem every_preset_enables_responder_and_disables_git_witness:
  "''autonomous_agent'' \<in> fst ` set PRESET_INFO
   \<and> is_enabled (started (get_preset_config ''autonomous_agent''))
   \<and> map_of (categories_of (started (get_preset_config ''autonomous_agent''))) ''git_operations''
       = Some \<lparr>enabled = Some False,
               description = Some ''Git commits, pushes, and repository operations'',
               patterns = Some (c_patterns (snd (GRANULAR_CONTROLS ! 6))),
               response = Some ''1''\<rparr>
   \<and> re_search git_and_continue_pane (''Commit changes'' @ bs @ ''?'')
        ''Commit changes? Do you want to continue?'' {IGNORECASE, MULTILINE} = Inr True
   \<and> map_option pi_category (projr (scan_categories git_and_continue_pane
         (categories_of (started (get_preset_config ''autonomous_agent'')))
         ''Commit changes? Do you want to continue?'')) = Some ''continue_operations''
   \<and> (\<exists>conf a cs g. generate_preset_config ''autonomous_agent'' = Inr conf
             \<and> auto_responder conf = Some a \<and> ar_enabled a = Some True
             \<and> granular_controls a = Some cs
             \<and> map_of cs ''git_operations'' = Some g \<and> enabled g = Some False)"
proof -
  have known: "''autonomous_agent'' \<in> fst ` set PRESET_INFO" by code_simp
  have en: "is_enabled (started (get_preset_config ''autonomous_agent''))" by code_simp
  have git: "map_of (categories_of (started (get_preset_config ''autonomous_agent''))) ''git_operations''
       = Some \<lparr>enabled = Some False,
               description = Some ''Git commits, pushes, and repository operations'',
               patterns = Some (c_patterns (snd (GRANULAR_CONTROLS ! 6))),
               response = Some ''1''\<rparr>"
    by code_simp
  have m: "re_search git_and_continue_pane (''Commit changes'' @ bs @ ''?'')
        ''Commit changes? Do you want to continue?'' {IGNORECASE, MULTILINE} = Inr True"
    by code_simp
  have sc: "map_option pi_category (projr (scan_categories git_and_continue_pane
         (categories_of (started (get_preset_config ''autonomous_agent'')))
         ''Commit changes? Do you want to continue?'')) = Some ''continue_operations''"
    by code_simp
  from every_preset_enables_responder_and_disables_git[OF known]
  have "\<exists>conf a cs g. generate_preset_config ''autonomous_agent'' = Inr conf
             \<and> auto_responder conf = Some a \<and> ar_enabled a = Some True
             \<and> granular_controls a = Some cs
             \<and> map_of cs ''git_operations'' = Some g \<and> enabled g = Some False"
    by blast
  with known en git m sc show ?thesis by blast
qed

subsection \<open>The tmux wrappers\<close>

lemma get_session_windows_snd [simp]:
  "snd (get_session_windows w sn s) = s\<lparr>trace := trace s @ [Run (ListWindows sn)]\<rparr>"
proof -
  obtain r s' where r: "subprocess_run w True (ListWindows sn) s = (r, s')"
    by (cases "subprocess_run w True (ListWindows sn) s")
  then have "s' = s\<lparr>trace := trace s @ [Run (ListWindows sn)]\<rparr>"
    using subprocess_run_snd[of w True "ListWindows sn" s] by simp
  with r show ?thesis
    by (simp add: get_session_windows_def split: sum.splits pyexc.splits)
qed

lemma subprocess_run_failed:
  "run w c = Exited rc out \<Longrightarrow> rc \<noteq> 0 \<Longrightarrow>
     subprocess_run w True c s = (Inl CalledProcessError, s\<lparr>trace := trace s @ [Run c]\<rparr>)"
  by (simp add: subprocess_run_def)

lemma subprocess_run_ok:
  "run w c = Exited 0 out \<Longrightarrow>
     subprocess_run w ch c s = (Inr out, s\<lparr>trace := trace s @ [Run c]\<rparr>)"
  by (simp add: subprocess_run_def)

lemma failed_exit_looks_empty:
  assumes rc: "rc \<noteq> 0"
  shows "(run w (ListWindows sn) = Exited rc out \<longrightarrow>
            get_session_windows w sn s = (Inr [], s\<lparr>trace := trace s @ [Run (ListWindows sn)]\<rparr>)
            \<and> (\<forall>w0. run w0 (ListWindows sn) = Exited 0 [] \<longrightarrow>
                   get_session_windows w0 sn s = get_session_windows w sn s))
       \<and> (run w (CapturePane sn wi n) = Exited rc out \<longrightarrow>
            capture_window_content w sn wi n s
              = (Inr [], s\<lparr>trace := trace s @ [Run (CapturePane sn wi n)]\<rparr>)
            \<and> (\<forall>w0. run w0 (CapturePane sn wi n) = Exited 0 [] \<longrightarrow>
                   capture_window_content w0 sn wi n s = capture_window_content w sn wi n s))
       \<and> (fst (capture_window_content w sn wi 20 s) = Inr [] \<longrightarrow>
            check_for_confirmation_prompt w sn wi s
              = (Inr None, s\<lparr>trace := trace s @ [Run (CapturePane sn wi 20)]\<rparr>)
            \<and> process_window w sn wi s
              = (Inr (), s\<lparr>trace := trace s @ [Run (CapturePane sn wi 20)]\<rparr>))"
proof (intro conjI impI allI)
  assume r: "run w (ListWindows sn) = Exited rc out"
  show a: "get_session_windows w sn s = (Inr [], s\<lparr>trace := trace s @ [Run (ListWindows sn)]\<rparr>)"
    by (simp add: get_session_windows_def subprocess_run_failed[OF r rc])
  fix w0 :: world assume "run w0 (ListWindows sn) = Exited 0 []"
  then show "get_session_windows w0 sn s = get_session_windows w sn s"
    by (simp add: a) (simp add: get_session_windows_def subprocess_run_ok py_strip_def)
next
  assume r: "run w (CapturePane sn wi n) = Exited rc out"
  show a: "capture_window_content w sn wi n s
              = (Inr [], s\<lparr>trace := trace s @ [Run (CapturePane sn wi n)]\<rparr>)"
    by (simp add: capture_window_content_def subprocess_run_failed[OF r rc])
  fix w0 :: world assume "run w0 (CapturePane sn wi n) = Exited 0 []"
  then show "capture_window_content w0 sn wi n s = capture_window_content w sn wi n s"
    by (simp add: a) (simp add: capture_window_content_def subprocess_run_ok)
next
  assume e: "fst (capture_window_content w sn wi 20 s) = Inr []"
  show c: "check_for_confirmation_prompt w sn wi s
              = (Inr None, s\<lparr>trace := trace s @ [Run (CapturePane sn wi 20)]\<rparr>)"
    by (simp add: check_cases[OF e])
  show "process_window w sn wi s
              = (Inr (), s\<lparr>trace := trace s @ [Run (CapturePane sn wi 20)]\<rparr>)"
    by (simp add: process_window_def c)
qed

lemma wrappers_let_other_exceptions_through:
  assumes "e \<noteq> CalledProcessError"
  shows "run w (ListWindows sn) = Raises e \<Longrightarrow>
           get_session_windows w sn s = (Inl e, s\<lparr>trace := trace s @ [Run (ListWindows sn)]\<rparr>)"
    and "run w (CapturePane sn wi n) = Raises e \<Longrightarrow>
           capture_window_content w sn wi n s
             = (Inl e, s\<lparr>trace := trace s @ [Run (CapturePane sn wi n)]\<rparr>)"
  using assms
  by (cases e; simp add: get_session_windows_def capture_window_content_def
        subprocess_run_def)+

lemma get_session_windows_parses:
  "run w (ListWindows sn) = Exited 0 out \<Longrightarrow>
     get_session_windows w sn s
       = (int_each (split_lines (py_strip out)), s\<lparr>trace := trace s @ [Run (ListWindows sn)]\<rparr>)"
  by (simp add: get_session_windows_def subprocess_run_ok)

text \<open>
  C9 as stated fails: the wrappers are not total. When tmux cannot be started, the
  subprocess call raises \<open>OSError\<close> and both wrappers raise it; and when the listing
  succeeds with a line that is not a number, \<open>get_session_windows\<close> raises the
  \<open>ValueError\<close> of \<open>int\<close>.
\<close>

theorem tmux_wrappers_are_total_counterexample:
  "run tmux_missing (ListWindows ''dev'') = Raises (OSError ''No such file or directory: tmux'')
   \<and> fst (get_session_windows tmux_missing ''dev'' (started (get_preset_config ''conservative'')))
       = Inl (OSError ''No such file or directory: tmux'')
   \<and> fst (capture_window_content tmux_missing ''dev'' 0 20
            (started (get_preset_config ''conservative'')))
       = Inl (OSError ''No such file or directory: tmux'')
   \<and> run named_listing (ListWindows ''dev'') = Exited 0 ''main''
   \<and> fst (get_session_windows named_listing ''dev'' (started (get_preset_config ''conservative'')))
       = Inl (ValueError (''invalid literal for int() with base 10: ''
                @ [CHR 0x27] @ ''main'' @ [CHR 0x27]))"
  by code_simp

text \<open>
  C9, amended. When the tmux command exits with a non-zero status (the failure that
  \<open>check=True\<close> reports as \<open>CalledProcessError\<close>), \<open>get_session_windows\<close> returns the
  empty list and \<open>capture_window_content\<close> the empty string instead of raising, and
  the call is indistinguishable from one that succeeded with empty output: same
  result and same state. An empty capture ends the check at once: \<open>None\<close> is
  returned, nothing is logged, and the window's pass through the loop runs no
  command but the capture. Any other exception of the subprocess call passes
  through both wrappers, and a listing that succeeds is parsed by \<open>int\<close>, whose
  \<open>ValueError\<close> passes through as well.
\<close>

theorem tmux_wrappers_catch_only_a_failed_exit:
  assumes rc: "rc \<noteq> 0"
  shows "(run w (ListWindows sn) = Exited rc out \<longrightarrow>
            get_session_windows w sn s = (Inr [], s\<lparr>trace := trace s @ [Run (ListWindows sn)]\<rparr>)
            \<and> (\<forall>w0. run w0 (ListWindows sn) = Exited 0 [] \<longrightarrow>
                   get_session_windows w0 sn s = get_session_windows w sn s))
       \<and> (run w (CapturePane sn wi n) = Exited rc out \<longrightarrow>
            capture_window_content w sn wi n s
              = (Inr [], s\<lparr>trace := trace s @ [Run (CapturePane sn wi n)]\<rparr>)
            \<and> (\<forall>w0. run w0 (CapturePane sn wi n) = Exited 0 [] \<longrightarrow>
                   capture_window_content w0 sn wi n s = capture_window_content w sn wi n s))
       \<and> (fst (capture_window_content w sn wi 20 s) = Inr [] \<longrightarrow>
            check_for_confirmation_prompt w sn wi s
              = (Inr None, s\<lparr>trace := trace s @ [Run (CapturePane sn wi 20)]\<rparr>)
            \<and> process_window w sn wi s
              = (Inr (), s\<lparr>trace := trace s @ [Run (CapturePane sn wi 20)]\<rparr>))
       \<and> (e \<noteq> CalledProcessError \<and> run w (ListWindows sn) = Raises e \<longrightarrow>
            get_session_windows w sn s
              = (Inl e, s\<lparr>trace := trace s @ [Run (ListWindows sn)]\<rparr>))
       \<and> (e \<noteq> CalledProcessError \<and> run w (CapturePane sn wi n) = Raises e \<longrightarrow>
            capture_window_content w sn wi n s
              = (Inl e, s\<lparr>trace := trace s @ [Run (CapturePane sn wi n)]\<rparr>))
       \<and> (run w (ListWindows sn) = Exited 0 out \<longrightarrow>
            get_session_windows w sn s
              = (int_each (split_lines (py_strip out)),
                 s\<lparr>trace := trace s @ [Run (ListWindows sn)]\<rparr>))"
proof -
  note a = failed_exit_looks_empty[OF rc, where w = w and sn = sn and out = out and s = s
      and wi = wi and n = n]
  have b: "e \<noteq> CalledProcessError \<and> run w (ListWindows sn) = Raises e \<longrightarrow>
            get_session_windows w sn s
              = (Inl e, s\<lparr>trace := trace s @ [Run (ListWindows sn)]\<rparr>)"
    using wrappers_let_other_exceptions_through(1) by blast
  have c: "e \<noteq> CalledProcessError \<and> run w (CapturePane sn wi n) = Raises e \<longrightarrow>
            capture_window_content w sn wi n s
              = (Inl e, s\<lparr>trace := trace s @ [Run (CapturePane sn wi n)]\<rparr>)"
    using wrappers_let_other_exceptions_through(2) by blast
  have d: "run w (ListWindows sn) = Exited 0 out \<longrightarrow>
            get_session_windows w sn s
              = (int_each (split_lines (py_strip out)),
                 s\<lparr>trace := trace s @ [Run (ListWindows sn)]\<rparr>)"
    using get_session_windows_parses by blast
  from a b c d show ?thesis by blast
qed

theorem tmux_wrappers_catch_only_a_failed_exit_witness:
  "(1 :: int) \<noteq> 0
   \<and> run no_session (ListWindows ''gone'') = Exited 1 []
   \<and> run no_session (CapturePane ''gone'' 0 20) = Exited 1 []
   \<and> fst (get_session_windows no_session ''gone'' (started (get_preset_config ''conservative'')))
       = Inr []
   \<and> fst (capture_window_content no_session ''gone'' 0 20
            (started (get_preset_config ''conservative''))) = Inr []
   \<and> check_for_confirmation_prompt no_session ''gone'' 0
         (started (get_preset_config ''conservative''))
        = (Inr None,
           (started (get_preset_config ''conservative''))
             \<lparr>trace := [Run (CapturePane ''gone'' 0 20)]\<rparr>)
   \<and> process_window no_session ''gone'' 0 (started (get_preset_config ''conservative''))
        = (Inr (),
           (started (get_preset_config ''conservative''))
             \<lparr>trace := [Run (CapturePane ''gone'' 0 20)]\<rparr>)
   \<and> OSError ''No such file or directory: tmux'' \<noteq> CalledProcessError
   \<and> fst (get_session_windows tmux_missing ''gone''
            (started (get_preset_config ''conservative'')))
       = Inl (OSError ''No such file or directory: tmux'')
   \<and> fst (capture_window_content tmux_missing ''gone'' 0 20
            (started (get_preset_config ''conservative'')))
       = Inl (OSError ''No such file or directory: tmux'')
   \<and> fst (get_session_windows (two_windows (Exited 0 []) (Exited 0 [])) ''gone''
            (started (get_preset_config ''conservative'')))
       = Inr [0, 1]"
proof -
  let ?st = "started (get_preset_config ''conservative'')"
  let ?err = "OSError ''No such file or directory: tmux''"
  have rc: "(1 :: int) \<noteq> 0" by simp
  have l: "run no_session (ListWindows ''gone'') = Exited 1 []" by code_simp
  have c: "run no_session (CapturePane ''gone'' 0 20) = Exited 1 []" by code_simp
  have tr: "trace ?st = []" by code_simp
  note t = tmux_wrappers_catch_only_a_failed_exit[OF rc, of no_session "''gone''" "[]" ?st 0 20]
  from t l have a: "fst (get_session_windows no_session ''gone'' ?st) = Inr []" by simp
  from t c have b: "fst (capture_window_content no_session ''gone'' 0 20 ?st) = Inr []" by simp
  from t b tr have d: "check_for_confirmation_prompt no_session ''gone'' 0 ?st
        = (Inr None, ?st\<lparr>trace := [Run (CapturePane ''gone'' 0 20)]\<rparr>)
      \<and> process_window no_session ''gone'' 0 ?st
        = (Inr (), ?st\<lparr>trace := [Run (CapturePane ''gone'' 0 20)]\<rparr>)" by simp
  have ne: "?err \<noteq> CalledProcessError" by simp
  have ml: "run tmux_missing (ListWindows ''gone'') = Raises ?err" by code_simp
  have mc: "run tmux_missing (CapturePane ''gone'' 0 20) = Raises ?err" by code_simp
  note m = tmux_wrappers_catch_only_a_failed_exit[OF rc, of tmux_missing "''gone''" "[]" ?st
      0 20 ?err]
  from m ne ml have f: "fst (get_session_windows tmux_missing ''gone'' ?st) = Inl ?err"
    by simp
  from m ne mc have g: "fst (capture_window_content tmux_missing ''gone'' 0 20 ?st) = Inl ?err"
    by simp
  have ok: "run (two_windows (Exited 0 []) (Exited 0 [])) (ListWindows ''gone'')
      = Exited 0 (''0'' @ [CHR 0x0A] @ ''1'' @ [CHR 0x0A])"
    by code_simp
  have parsed: "int_each (split_lines (py_strip (''0'' @ [CHR 0x0A] @ ''1'' @ [CHR 0x0A])))
      = Inr [0, 1]"
    by code_simp
  from tmux_wrappers_catch_only_a_failed_exit[OF rc,
      of "two_windows (Exited 0 []) (Exited 0 [])" "''gone''"
         "''0'' @ [CHR 0x0A] @ ''1'' @ [CHR 0x0A]" ?st 0 20 ?err] ok
  have "fst (get_session_windows (two_windows (Exited 0 []) (Exited 0 [])) ''gone'' ?st)
      = int_each (split_lines (py_strip (''0'' @ [CHR 0x0A] @ ''1'' @ [CHR 0x0A])))"
    by simp
  then have h: "fst (get_session_windows (two_windows (Exited 0 []) (Exited 0 [])) ''gone'' ?st)
      = Inr [0, 1]"
    unfolding parsed .
  from rc l c a b d ne f g h show ?thesis by blast
qed

subsection \<open>Manual approval\<close>

text \<open>
  C4 as stated fails: with \<open>skip_dangerous_operations\<close> false, a text that matches a
  \<open>require_manual_approval\<close> pattern and a pattern of an enabled category is answered.
\<close>

theorem manual_approval_regardless_of_flag_counterexample:
  "dict_get (skip_dangerous_operations (safety_of (started no_skip_config))) True = False
   \<and> (\<exists>p\<in>set (dict_get (require_manual_approval (safety_of (started no_skip_config))) []).
         re_search production_pane p ''Deploy to production. Apply these changes? (yes/no)''
           {IGNORECASE} = Inr True)
   \<and> fst (check_for_confirmation_prompt production_pane ''dev'' 0 (started no_skip_config))
       = Inr (Some \<lparr>pi_response = ''1'', pi_category = ''file_operations'',
                    pi_description = ''File creation, editing, saving'',
                    pattern_matched = ''Apply these changes'' @ bs @ ''?''\<rparr>)
   \<and> trace (snd (process_window production_pane ''dev'' 0 (started no_skip_config)))
       = [Run (CapturePane ''dev'' 0 20), Run (SendKeys ''dev'' 0 ''1''), Sleep (1 / 2),
          Run (SendKeys ''dev'' 0 ''Enter'')]"
  by code_simp

text \<open>
  C4, amended. With \<open>skip_dangerous_operations\<close> true or absent, a text that matches
  a \<open>require_manual_approval\<close> pattern is never answered: the check returns \<open>None\<close>
  (or the safety scan's own exception) and the window's pass runs only the capture.
  A skip is logged as \<open>SKIPPED\<close>, \<open>Dangerous operation detected\<close>, whichever of the
  two lists matched. With the flag false neither list is scanned: the safety check
  answers no and the result is that of the category scan.
\<close>

theorem manual_approval_is_gated_by_the_skip_flag:
  assumes cap: "fst (capture_window_content w sn wi 20 s) = Inr content"
  shows "(dict_get (skip_dangerous_operations (safety_of s)) True
          \<and> (\<exists>p\<in>set (dict_get (require_manual_approval (safety_of s)) []).
                re_search w p content {IGNORECASE} = Inr True)
          \<longrightarrow> (\<forall>info. fst (check_for_confirmation_prompt w sn wi s) \<noteq> Inr (Some info))
              \<and> (fst (check_for_confirmation_prompt w sn wi s) = Inr None
                 \<or> (\<exists>e. is_dangerous_operation w s content = Inl e
                       \<and> fst (check_for_confirmation_prompt w sn wi s) = Inl e))
              \<and> trace (snd (process_window w sn wi s)) = trace s @ [Run (CapturePane sn wi 20)])
       \<and> (content \<noteq> [] \<and> is_dangerous_operation w s content = Inr True
          \<longrightarrow> snd (check_for_confirmation_prompt w sn wi s)
                = log_response sn wi ''SKIPPED'' ''Dangerous operation detected'' [] []
                    (s\<lparr>trace := trace s @ [Run (CapturePane sn wi 20)]\<rparr>))
       \<and> (\<not> dict_get (skip_dangerous_operations (safety_of s)) True
          \<longrightarrow> is_dangerous_operation w s content = Inr False
              \<and> fst (check_for_confirmation_prompt w sn wi s)
                  = (if content = [] then Inr None
                     else scan_categories w (categories_of s) content))"
proof (intro conjI impI)
  assume h: "dict_get (skip_dangerous_operations (safety_of s)) True
          \<and> (\<exists>p\<in>set (dict_get (require_manual_approval (safety_of s)) []).
                re_search w p content {IGNORECASE} = Inr True)"
  then have danger: "is_dangerous_operation w s content \<noteq> Inr False"
    by (intro is_dangerous_manual_hit) simp_all
  show res: "fst (check_for_confirmation_prompt w sn wi s) = Inr None
          \<or> (\<exists>e. is_dangerous_operation w s content = Inl e
                \<and> fst (check_for_confirmation_prompt w sn wi s) = Inl e)"
    using danger by (auto simp: check_cases[OF cap] Let_def split: sum.splits bool.splits)
  then show no: "\<forall>info. fst (check_for_confirmation_prompt w sn wi s) \<noteq> Inr (Some info)"
    by auto
  have "trace (snd (check_for_confirmation_prompt w sn wi s)) = trace s @ [Run (CapturePane sn wi 20)]"
    by (auto simp: check_cases[OF cap] Let_def split: sum.splits bool.splits)
  with process_window_no_prompt[OF no]
  show "trace (snd (process_window w sn wi s)) = trace s @ [Run (CapturePane sn wi 20)]"
    by simp
next
  assume "content \<noteq> [] \<and> is_dangerous_operation w s content = Inr True"
  then show "snd (check_for_confirmation_prompt w sn wi s)
                = log_response sn wi ''SKIPPED'' ''Dangerous operation detected'' [] []
                    (s\<lparr>trace := trace s @ [Run (CapturePane sn wi 20)]\<rparr>)"
    by (simp add: check_cases[OF cap] Let_def)
next
  assume off: "\<not> dict_get (skip_dangerous_operations (safety_of s)) True"
  show safe: "is_dangerous_operation w s content = Inr False"
    using off by (rule is_dangerous_flag_off)
  show "fst (check_for_confirmation_prompt w sn wi s)
                  = (if content = [] then Inr None
                     else scan_categories w (categories_of s) content)"
    by (simp add: check_cases[OF cap] Let_def safe)
qed

theorem manual_approval_is_gated_by_the_skip_flag_witness:
  "dict_get (skip_dangerous_operations (safety_of (started (get_preset_config ''pm_orchestrator'')))) True
   \<and> (\<exists>p\<in>set (dict_get (require_manual_approval
                  (safety_of (started (get_preset_config ''pm_orchestrator'')))) []).
         re_search production_pane p ''Deploy to production. Apply these changes? (yes/no)''
           {IGNORECASE} = Inr True)
   \<and> fst (check_for_confirmation_prompt production_pane ''dev'' 0
            (started (get_preset_config ''pm_orchestrator''))) = Inr None
   \<and> map (\<lambda>e. (le_response e, status e))
         (response_log (snd (check_for_confirmation_prompt production_pane ''dev'' 0
            (started (get_preset_config ''pm_orchestrator'')))))
       = [(''SKIPPED'', ''Dangerous operation detected'')]
   \<and> trace (snd (process_window production_pane ''dev'' 0
            (started (get_preset_config ''pm_orchestrator'')))) = [Run (CapturePane ''dev'' 0 20)]
   \<and> \<not> dict_get (skip_dangerous_operations (safety_of (started no_skip_config))) True
   \<and> is_dangerous_operation production_pane (started no_skip_config)
        ''Deploy to production. Apply these changes? (yes/no)'' = Inr False"
proof -
  let ?s = "started (get_preset_config ''pm_orchestrator'')"
  let ?c = "''Deploy to production. Apply these changes? (yes/no)''"
  have cap: "fst (capture_window_content production_pane ''dev'' 0 20 ?s) = Inr ?c"
    by code_simp
  have cap': "fst (capture_window_content production_pane ''dev'' 0 20 (started no_skip_config)) = Inr ?c"
    by code_simp
  have flag: "dict_get (skip_dangerous_operations (safety_of ?s)) True" by code_simp
  have hit: "\<exists>p\<in>set (dict_get (require_manual_approval (safety_of ?s)) []).
         re_search production_pane p ?c {IGNORECASE} = Inr True"
    by code_simp
  have d: "is_dangerous_operation production_pane ?s ?c = Inr True" by code_simp
  have tr: "trace ?s = []" by code_simp
  have lg: "map (\<lambda>e. (le_response e, status e))
         (response_log (log_response ''dev'' 0 ''SKIPPED'' ''Dangerous operation detected'' [] []
                    (?s\<lparr>trace := trace ?s @ [Run (CapturePane ''dev'' 0 20)]\<rparr>)))
       = [(''SKIPPED'', ''Dangerous operation detected'')]"
    by code_simp
  have off: "\<not> dict_get (skip_dangerous_operations (safety_of (started no_skip_config))) True"
    by code_simp
  note on = manual_approval_is_gated_by_the_skip_flag[OF cap]
  from on flag hit d have a: "fst (check_for_confirmation_prompt production_pane ''dev'' 0 ?s) = Inr None"
    by auto
  from on d lg have b: "map (\<lambda>e. (le_response e, status e))
         (response_log (snd (check_for_confirmation_prompt production_pane ''dev'' 0 ?s)))
       = [(''SKIPPED'', ''Dangerous operation detected'')]"
    by simp
  from on flag hit tr have c: "trace (snd (process_window production_pane ''dev'' 0 ?s))
      = [Run (CapturePane ''dev'' 0 20)]"
    by simp
  from manual_approval_is_gated_by_the_skip_flag[OF cap'] off
  have e: "is_dangerous_operation production_pane (started no_skip_config) ?c = Inr False"
    by blast
  from flag hit a b c off e show ?thesis by blast
qed

subsection \<open>A failing window\<close>

lemma same_self_refl [simp]: "same_self s s"
  by (simp add: same_self_def)

lemma same_self_trans: "same_self s s1 \<Longrightarrow> same_self s1 s2 \<Longrightarrow> same_self s s2"
  by (simp add: same_self_def)


lemma same_self_log [simp]: "same_self s (log_response sn wi r st c d s)"
  by (simp add: same_self_def)

lemma same_self_sleep [simp]: "same_self s (snd (time_sleep d s))"
  by (simp add: same_self_def time_sleep_def)



lemma same_self_trace [simp]: "same_self s (s\<lparr>trace := t\<rparr>)"
  by (simp add: same_self_def)

lemma same_self_subprocess: "same_self s (snd (subprocess_run w ch c s))"
  by simp

lemma same_self_check: "same_self s (snd (check_for_confirmation_prompt w sn wi s))"
proof (cases "fst (capture_window_content w sn wi 20 s)")
  case (Inl e)
  then show ?thesis by (simp add: check_raise)
next
  case (Inr content)
  have "same_self (s\<lparr>trace := trace s @ [Run (CapturePane sn wi 20)]\<rparr>)
          (log_response sn wi ''SKIPPED'' ''Dangerous operation detected'' [] []
             (s\<lparr>trace := trace s @ [Run (CapturePane sn wi 20)]\<rparr>))"
    by (rule same_self_log)
  then have "same_self s (log_response sn wi ''SKIPPED'' ''Dangerous operation detected'' [] []
             (s\<lparr>trace := trace s @ [Run (CapturePane sn wi 20)]\<rparr>))"
    by (simp add: same_self_def)
  then show ?thesis
    by (simp add: check_cases[OF Inr] Let_def split: sum.splits bool.splits)
qed

lemma same_self_send_try: "same_self s (snd (send_response_try w sn wi r s))"
proof -
  have a: "\<And>ch c s0. same_self s s0 \<Longrightarrow> same_self s (snd (subprocess_run w ch c s0))"
    by (simp add: same_self_def)
  have b: "\<And>d s0. same_self s s0 \<Longrightarrow> same_self s (snd (time_sleep d s0))"
    by (simp add: same_self_def time_sleep_def)
  show ?thesis
    unfolding send_response_try_def Let_def
    by (auto split: prod.splits sum.splits if_splits
        dest!: arg_cong[where f = snd] simp: same_self_def time_sleep_def)
qed

lemma same_self_send: "same_self s (snd (send_response w sn wi r s))"
proof -
  obtain x s1 where t: "send_response_try w sn wi r s = (x, s1)"
    by (cases "send_response_try w sn wi r s")
  with same_self_send_try[of s w sn wi r] have "same_self s s1" by simp
  then have "\<And>st. same_self s (log_response sn wi r st [] [] s1)"
    by (simp add: same_self_def)
  with \<open>same_self s s1\<close> t show ?thesis
    by (auto simp: send_response_def split: sum.splits pyexc.splits)
qed

lemma same_self_process_window: "same_self s (snd (process_window w sn wi s))"
proof -
  obtain x s1 where c: "check_for_confirmation_prompt w sn wi s = (x, s1)"
    by (cases "check_for_confirmation_prompt w sn wi s")
  with same_self_check[of s w sn wi] have s1: "same_self s s1" by simp
  show ?thesis
  proof (cases x)
    case (Inl e)
    with c s1 show ?thesis by (simp add: process_window_def)
  next
    case (Inr m)
    show ?thesis
    proof (cases m)
      case None
      with Inr c s1 show ?thesis by (simp add: process_window_def)
    next
      case (Some info)
      obtain y s2 where sr: "send_response w sn wi (pi_response info) s1 = (y, s2)"
        by (cases "send_response w sn wi (pi_response info) s1")
      with same_self_send[of s1 w sn wi "pi_response info"] have "same_self s1 s2" by simp
      with s1 have s2: "same_self s s2" by (rule same_self_trans)
      then have "\<And>st c d. same_self s (log_response sn wi (pi_response info) st c d s2)"
        by (simp add: same_self_def)
      with s2 Some Inr c sr show ?thesis
        by (auto simp: process_window_def split: sum.splits)
    qed
  qed
qed

lemma same_self_for_windows: "same_self s (snd (for_windows w sn ws s))"
proof (induction ws arbitrary: s)
  case Nil
  then show ?case by simp
next
  case (Cons x ws)
  obtain r s1 where p: "process_window w sn x s = (r, s1)"
    by (cases "process_window w sn x s")
  with same_self_process_window[of s w sn x] have s1: "same_self s s1" by simp
  from Cons.IH[of s1] s1 have "same_self s (snd (for_windows w sn ws s1))"
    by (rule same_self_trans[rotated])
  with p s1 show ?case by (auto split: sum.splits)
qed

lemma same_self_tick_try: "same_self s (snd (tick_try w sn d s))"
proof -
  obtain r s1 where g: "get_session_windows w sn s = (r, s1)"
    by (cases "get_session_windows w sn s")
  with get_session_windows_snd[of w sn s] have s1: "same_self s s1"
    by (simp add: same_self_def)
  show ?thesis
  proof (cases r)
    case (Inl e)
    with g s1 show ?thesis by (simp add: tick_try_def)
  next
    case (Inr ws)
    obtain y s2 where f: "for_windows w sn ws s1 = (y, s2)"
      by (cases "for_windows w sn ws s1")
    with same_self_for_windows[of s1 w sn ws] have "same_self s1 s2" by simp
    with s1 have s2: "same_self s s2" by (rule same_self_trans)
    then have "same_self s (snd (time_sleep d s2))" by (simp add: same_self_def time_sleep_def)
    with s2 Inr g f show ?thesis by (auto simp: tick_try_def split: sum.splits)
  qed
qed

lemma same_self_tick: "same_self s (snd (tick w sn d s))"
proof -
  obtain r s1 where t: "tick_try w sn d s = (r, s1)" by (cases "tick_try w sn d s")
  with same_self_tick_try[of s w sn d] have s1: "same_self s s1" by simp
  then have "same_self s (snd (time_sleep d s1))" by (simp add: same_self_def time_sleep_def)
  with s1 t show ?thesis by (auto simp: tick_def split: sum.splits)
qed






subsection \<open>Changing the configuration\<close>

lemma cfg_update_config [simp]: "cfg (update_config f s) = f (cfg s)"
  by (simp add: update_config_def cfg_def)

lemma config_ref_update_config [simp]: "config_ref (update_config f s) = config_ref s"
  by (simp add: update_config_def)

lemma heap_update_config [simp]:
  "heap (update_config f s) = (heap s)(config_ref s := f (cfg s))"
  by (simp add: update_config_def)

lemma save_config_reads [simp]:
  "cfg (save_config s) = cfg s" "config_ref (save_config s) = config_ref s"
  "heap (save_config s) = heap s"
  "trace (save_config s) = trace s @ [WriteConfig (cfg s)]"
  by (simp_all add: save_config_def cfg_def)

lemma update_config_trace [simp]: "trace (update_config f s) = trace s"
  by (simp add: update_config_def)

lemma stop_reads [simp]:
  "cfg (stop s) = cfg s" "config_ref (stop s) = config_ref s" "heap (stop s) = heap s"
  by (simp_all add: stop_def cfg_def)

lemma map_set_category_idle:
  "cat \<notin> fst ` set cs \<Longrightarrow>
     map (\<lambda>kc. if fst kc = cat then (fst kc, (snd kc)\<lparr>enabled := Some b\<rparr>) else kc) cs = cs"
  by (induction cs) auto

text \<open>
  C6 as stated fails: \<open>enable_category\<close> keeps the reference \<open>self.config\<close> and
  changes the dictionary it refers to. The same reference that made the check
  return \<open>None\<close> for a git prompt makes it answer after the call.
\<close>

theorem configuration_dictionary_is_swapped_counterexample:
  "fst (enable_category ''git_operations'' (started (get_preset_config ''conservative'')))
   \<and> config_ref (snd (enable_category ''git_operations''
         (started (get_preset_config ''conservative''))))
       = config_ref (started (get_preset_config ''conservative''))
   \<and> heap (snd (enable_category ''git_operations''
         (started (get_preset_config ''conservative''))))
         (config_ref (started (get_preset_config ''conservative'')))
       \<noteq> heap (started (get_preset_config ''conservative''))
           (config_ref (started (get_preset_config ''conservative'')))
   \<and> fst (check_for_confirmation_prompt commit_pane ''dev'' 0
           (started (get_preset_config ''conservative''))) = Inr None
   \<and> fst (check_for_confirmation_prompt commit_pane ''dev'' 0
           (snd (enable_category ''git_operations''
              (started (get_preset_config ''conservative'')))))
       = Inr (Some \<lparr>pi_response = ''1'', pi_category = ''git_operations'',
                    pi_description = ''Git commits, pushes, and repository operations'',
                    pattern_matched = ''Commit changes'' @ bs @ ''?''\<rparr>)"
  by code_simp

text \<open>
  C6, amended. \<open>enable\<close>, \<open>disable\<close>, \<open>enable_category\<close> and \<open>disable_category\<close> (the two
  instances of \<open>change_category\<close>) leave the reference \<open>self.config\<close> as it is,
  replace the contents of the dictionary at that reference, leaving every other
  object of the heap untouched, and then write the changed dictionary to the file;
  an unknown category writes nothing. The flag read through the reference is the
  new one, and the categories read through it are the old ones with the named
  category's flag set. \<open>stop\<close>, \<open>log_response\<close> and a pass of the monitor loop keep
  both the reference and the heap.
\<close>

theorem configuration_is_updated_in_place:
  "config_ref (enable s) = config_ref s
   \<and> heap (enable s) = (heap s)(config_ref s := set_enabled True (cfg s))
   \<and> trace (enable s) = trace s @ [WriteConfig (set_enabled True (cfg s))]
   \<and> is_enabled (enable s)
   \<and> config_ref (disable s) = config_ref s
   \<and> heap (disable s) = (heap s)(config_ref s := set_enabled False (cfg s))
   \<and> trace (disable s) = trace s @ [WriteConfig (set_enabled False (cfg s))]
   \<and> \<not> is_enabled (disable s)
   \<and> enable_category cat s = change_category True cat s
   \<and> disable_category cat s = change_category False cat s
   \<and> config_ref (snd (change_category b cat s)) = config_ref s
   \<and> heap (snd (change_category b cat s)) =
        (heap s)(config_ref s :=
           (if cat \<in> fst ` set (categories_of s)
            then set_category_enabled cat b (ensure_granular_controls (cfg s))
            else ensure_granular_controls (cfg s)))
   \<and> trace (snd (change_category b cat s)) =
        (if cat \<in> fst ` set (categories_of s)
         then trace s @
                [WriteConfig (set_category_enabled cat b (ensure_granular_controls (cfg s)))]
         else trace s)
   \<and> fst (change_category b cat s) = (cat \<in> fst ` set (categories_of s))
   \<and> categories_of (snd (change_category b cat s)) =
        map (\<lambda>kc. if fst kc = cat then (fst kc, (snd kc)\<lparr>enabled := Some b\<rparr>) else kc)
          (categories_of s)
   \<and> config_ref (stop s) = config_ref s \<and> heap (stop s) = heap s
   \<and> config_ref (log_response sn wi r st c d' s) = config_ref s
   \<and> heap (log_response sn wi r st c d' s) = heap s
   \<and> config_ref (snd (tick w sn d s)) = config_ref s
   \<and> heap (snd (tick w sn d s)) = heap s"
proof -
  have en: "config_ref (enable s) = config_ref s
      \<and> heap (enable s) = (heap s)(config_ref s := set_enabled True (cfg s))
      \<and> trace (enable s) = trace s @ [WriteConfig (set_enabled True (cfg s))]
      \<and> is_enabled (enable s)"
    by (simp add: enable_def is_enabled_def get_auto_responder_def set_enabled_def dict_get_def)
  have dis: "config_ref (disable s) = config_ref s
      \<and> heap (disable s) = (heap s)(config_ref s := set_enabled False (cfg s))
      \<and> trace (disable s) = trace s @ [WriteConfig (set_enabled False (cfg s))]
      \<and> \<not> is_enabled (disable s)"
    by (simp add: disable_def stop_def save_config_def cfg_def update_config_def
        is_enabled_def get_auto_responder_def set_enabled_def dict_get_def)
  have inst: "enable_category cat s = change_category True cat s
      \<and> disable_category cat s = change_category False cat s"
    by (simp add: enable_category_def disable_category_def)
  let ?s1 = "update_config ensure_granular_controls s"
  have cats1: "categories_of ?s1 = categories_of s"
    by (simp add: get_auto_responder_def ensure_granular_controls_def Let_def dict_get_def
        split: option.splits)
  have ref: "config_ref (snd (change_category b cat s)) = config_ref s"
    by (simp add: change_category_def Let_def)
  have hp: "heap (snd (change_category b cat s)) =
        (heap s)(config_ref s :=
           (if cat \<in> fst ` set (categories_of s)
            then set_category_enabled cat b (ensure_granular_controls (cfg s))
            else ensure_granular_controls (cfg s)))"
    using cats1 by (simp add: change_category_def Let_def)
  have tr: "trace (snd (change_category b cat s)) =
        (if cat \<in> fst ` set (categories_of s)
         then trace s @
                [WriteConfig (set_category_enabled cat b (ensure_granular_controls (cfg s)))]
         else trace s)"
    using cats1 by (simp add: change_category_def Let_def)
  have ok: "fst (change_category b cat s) = (cat \<in> fst ` set (categories_of s))"
    using cats1 by (simp add: change_category_def Let_def)
  have cats: "categories_of (snd (change_category b cat s)) =
        map (\<lambda>kc. if fst kc = cat then (fst kc, (snd kc)\<lparr>enabled := Some b\<rparr>) else kc)
          (categories_of s)"
  proof (cases "cat \<in> fst ` set (categories_of s)")
    case True
    with cats1 have "snd (change_category b cat s)
        = save_config (update_config (set_category_enabled cat b) ?s1)"
      by (simp add: change_category_def Let_def)
    then have "categories_of (snd (change_category b cat s)) =
        map (\<lambda>kc. if fst kc = cat then (fst kc, (snd kc)\<lparr>enabled := Some b\<rparr>) else kc)
          (categories_of ?s1)"
      by (simp add: get_auto_responder_def set_category_enabled_def Let_def dict_get_def)
    with cats1 show ?thesis by simp
  next
    case False
    with cats1 have "snd (change_category b cat s) = ?s1"
      by (simp add: change_category_def Let_def)
    with cats1 map_set_category_idle[OF False, of b] show ?thesis by simp
  qed
  have stp: "config_ref (stop s) = config_ref s \<and> heap (stop s) = heap s" by simp
  have lg: "config_ref (log_response sn wi r st c d' s) = config_ref s
      \<and> heap (log_response sn wi r st c d' s) = heap s"
    by simp
  have tk: "config_ref (snd (tick w sn d s)) = config_ref s
      \<and> heap (snd (tick w sn d s)) = heap s"
    using same_self_tick[of s w sn d] by (simp add: same_self_def)
  from en dis inst ref hp tr ok cats stp lg tk show ?thesis by blast
qed

subsection \<open>The audit log\<close>

lemma log_response_log:
  "response_log (log_response sn wi r st c d s) =
     (if dict_get (log_responses (get_auto_responder s)) True
      then response_log s @
             [\<lparr>timestamp = clock s, session = sn, window = wi, le_response = r, status = st,
               category = c, le_description = d\<rparr>]
      else response_log s)"
  by (simp add: log_response_def)

lemma log_response_auto_responder [simp]:
  "get_auto_responder (log_response sn wi r st c d s) = get_auto_responder s"
  by (simp add: log_response_def)

lemma log_many_length:
  "dict_get (log_responses (get_auto_responder s)) True \<Longrightarrow>
     length (response_log ((log_response sn wi r st c d ^^ n) s)) = length (response_log s) + n
     \<and> get_auto_responder ((log_response sn wi r st c d ^^ n) s) = get_auto_responder s"
  by (induction n) (simp_all add: log_response_log)

lemma log_many_prefix:
  "take (length (response_log s)) (response_log ((log_response sn wi r st c d ^^ n) s))
     = response_log s"
proof (induction n)
  case 0
  then show ?case by simp
next
  case (Suc n)
  let ?t = "(log_response sn wi r st c d ^^ n) s"
  have "length (response_log s) \<le> length (response_log ?t)"
  proof -
    have "length (take (length (response_log s)) (response_log ?t)) = length (response_log s)"
      using Suc by simp
    then show ?thesis by simp
  qed
  with Suc show ?case by (simp add: log_response_log)
qed

text \<open>
  C7 as stated fails: no number bounds the log. Logging the same action \<open>n\<close> times
  gives a log of \<open>n\<close> records, for every \<open>n\<close>.
\<close>

theorem audit_log_is_bounded_counterexample:
  "\<not> (\<exists>cap. \<forall>n. length (response_log
          ((log_response ''dev'' 0 ''1'' ''Auto-approved'' ''general_confirmations'' [] ^^ n)
             (started (get_preset_config ''conservative'')))) \<le> cap)"
proof
  let ?st = "started (get_preset_config ''conservative'')"
  assume "\<exists>cap. \<forall>n. length (response_log
          ((log_response ''dev'' 0 ''1'' ''Auto-approved'' ''general_confirmations'' [] ^^ n) ?st))
          \<le> cap"
  then obtain cap where cap: "\<forall>n. length (response_log
          ((log_response ''dev'' 0 ''1'' ''Auto-approved'' ''general_confirmations'' [] ^^ n) ?st))
          \<le> cap" ..
  have on: "dict_get (log_responses (get_auto_responder ?st)) True" by code_simp
  from log_many_length[OF on, where n = "Suc cap"]
  have "length (response_log
          ((log_response ''dev'' 0 ''1'' ''Auto-approved'' ''general_confirmations'' [] ^^ Suc cap) ?st))
        = length (response_log ?st) + Suc cap" by blast
  with cap[rule_format, of "Suc cap"] show False by simp
qed

text \<open>
  C7, amended. With logging on, \<open>log_response\<close> appends exactly one record; \<open>n\<close> calls
  make the log \<open>n\<close> records longer and leave the records that were there in place
  at its head, so nothing is evicted. Only the status report is bounded: it shows
  the last ten records.
\<close>

theorem response_log_only_grows:
  assumes on: "dict_get (log_responses (get_auto_responder s)) True"
  shows "response_log (log_response sn wi r st c d s) =
           response_log s @
             [\<lparr>timestamp = clock s, session = sn, window = wi, le_response = r, status = st,
               category = c, le_description = d\<rparr>]
       \<and> length (response_log ((log_response sn wi r st c d ^^ n) s))
           = length (response_log s) + n
       \<and> take (length (response_log s)) (response_log ((log_response sn wi r st c d ^^ n) s))
           = response_log s
       \<and> recent_responses s = drop (length (response_log s) - 10) (response_log s)
       \<and> length (recent_responses s) = min 10 (length (response_log s))"
proof -
  have a: "response_log (log_response sn wi r st c d s) =
           response_log s @
             [\<lparr>timestamp = clock s, session = sn, window = wi, le_response = r, status = st,
               category = c, le_description = d\<rparr>]"
    using on by (simp add: log_response_log)
  have b: "length (response_log ((log_response sn wi r st c d ^^ n) s))
           = length (response_log s) + n"
    using log_many_length[OF on] by blast
  have e: "length (recent_responses s) = min 10 (length (response_log s))"
    by (simp add: recent_responses_def)
  from a b log_many_prefix[where s = s and n = n] e show ?thesis
    by (simp add: recent_responses_def)
qed

theorem response_log_only_grows_witness:
  "dict_get (log_responses (get_auto_responder
       (log_response ''dev'' 1 ''SKIPPED'' ''Dangerous operation detected'' [] []
          (started (get_preset_config ''conservative''))))) True
   \<and> length (response_log
        ((log_response ''dev'' 0 ''1'' ''Auto-approved'' ''general_confirmations'' [] ^^ 11)
           (log_response ''dev'' 1 ''SKIPPED'' ''Dangerous operation detected'' [] []
              (started (get_preset_config ''conservative''))))) = 12
   \<and> take 1 (response_log
        ((log_response ''dev'' 0 ''1'' ''Auto-approved'' ''general_confirmations'' [] ^^ 11)
           (log_response ''dev'' 1 ''SKIPPED'' ''Dangerous operation detected'' [] []
              (started (get_preset_config ''conservative'')))))
       = [\<lparr>timestamp = 0, session = ''dev'', window = 1, le_response = ''SKIPPED'',
            status = ''Dangerous operation detected'', category = [], le_description = []\<rparr>]
   \<and> length (recent_responses
        ((log_response ''dev'' 0 ''1'' ''Auto-approved'' ''general_confirmations'' [] ^^ 11)
           (log_response ''dev'' 1 ''SKIPPED'' ''Dangerous operation detected'' [] []
              (started (get_preset_config ''conservative''))))) = 10"
proof -
  let ?first = "log_response ''dev'' 1 ''SKIPPED'' ''Dangerous operation detected'' [] []
              (started (get_preset_config ''conservative''))"
  let ?many = "(log_response ''dev'' 0 ''1'' ''Auto-approved'' ''general_confirmations'' [] ^^ 11)
      ?first"
  have on: "dict_get (log_responses (get_auto_responder ?first)) True" by code_simp
  have e: "response_log ?first
       = [\<lparr>timestamp = 0, session = ''dev'', window = 1, le_response = ''SKIPPED'',
            status = ''Dangerous operation detected'', category = [], le_description = []\<rparr>]"
    by code_simp
  have on': "dict_get (log_responses (get_auto_responder ?many)) True"
  proof -
    from log_many_length[OF on, where n = 11 and sn = "''dev''" and wi = 0
      and r = "''1''" and st = "''Auto-approved''" and c = "''general_confirmations''"
      and d = "[]"]
    have "get_auto_responder ?many = get_auto_responder ?first" by (elim conjE)
    with on show ?thesis by (simp only:)
  qed
  note t = response_log_only_grows[OF on, where n = 11 and sn = "''dev''" and wi = 0
      and r = "''1''" and st = "''Auto-approved''" and c = "''general_confirmations''"
      and d = "[]"]
  from t have "length (response_log ?many) = length (response_log ?first) + 11"
    by (elim conjE)
  then have a: "length (response_log ?many) = 12" unfolding e by simp
  from t have "take (length (response_log ?first)) (response_log ?many) = response_log ?first"
    by (elim conjE)
  then have b: "take 1 (response_log ?many)
       = [\<lparr>timestamp = 0, session = ''dev'', window = 1, le_response = ''SKIPPED'',
            status = ''Dangerous operation detected'', category = [], le_description = []\<rparr>]"
    unfolding e by simp
  from response_log_only_grows[OF on', where n = 0 and sn = "''dev''" and wi = 0
      and r = "''1''" and st = "''Auto-approved''" and c = "''general_confirmations''"
      and d = "[]"]
  have "length (recent_responses ?many) = min 10 (length (response_log ?many))"
    by (elim conjE)
  then have c: "length (recent_responses ?many) = 10" unfolding a by simp
  from on a b c show ?thesis by blast
qed

subsection \<open>Overlapping sends\<close>

text \<open>The cut of \<open>send_response\<close> into steps is the function itself: a thread that runs
  its three steps alone ends where \<open>send_response\<close> does, with its result.\<close>

lemma send_response_via_finish:
  "(case finish_send sn wi r (send_response_try w sn wi r s) of
      (p, s') \<Rightarrow> (outcome_of p, s'))
   = (Some (fst (send_response w sn wi r s)), snd (send_response w sn wi r s))"
  by (cases "send_response_try w sn wi r s")
     (auto simp: finish_send_def send_response_def split: sum.splits pyexc.splits)

lemma finish_send_done [simp]:
  "send_response_step w sn wi r (fst (finish_send sn' wi' r' x)) (snd (finish_send sn' wi' r' x))
     = finish_send sn' wi' r' x"
  by (cases x) (auto simp: finish_send_def split: sum.splits pyexc.splits)

lemma send_response_alone_eq:
  "send_response_alone w sn wi r s = finish_send sn wi r (send_response_try w sn wi r s)"
proof (cases "send_script_exists w")
  case True
  let ?x = "finish_send sn wi r
          (case subprocess_run w True (SendScript sn wi r) s of
             (Inl e, s1) \<Rightarrow> (Inl e, s1)
           | (Inr out, s1) \<Rightarrow> (Inr ''send-claude-message.sh'', s1))"
  have "send_response_alone w sn wi r s =
     (case ?x of (p1, s1) \<Rightarrow>
          (case send_response_step w sn wi r p1 s1 of
             (p2, s2) \<Rightarrow> send_response_step w sn wi r p2 s2))"
    using True by (simp add: send_response_alone_def)
  also have "\<dots> = ?x"
    using finish_send_done[of w sn wi r sn wi r]
    by (cases ?x) (auto simp: finish_send_def split: sum.splits pyexc.splits prod.splits)
  finally show ?thesis using True by (simp add: send_response_try_def)
next
  case False
  obtain x s1 where k: "subprocess_run w False (SendKeys sn wi r) s = (x, s1)"
    by (cases "subprocess_run w False (SendKeys sn wi r) s")
  then have s1: "s1 = s\<lparr>trace := trace s @ [Run (SendKeys sn wi r)]\<rparr>"
    using subprocess_run_snd[of w False "SendKeys sn wi r" s] by simp
  show ?thesis
  proof (cases x)
    case (Inl e)
    with False k show ?thesis
      by (auto simp: send_response_alone_def send_response_try_def finish_send_def
          split: sum.splits pyexc.splits prod.splits)
  next
    case (Inr out)
    with False k show ?thesis
      by (auto simp: send_response_alone_def send_response_try_def time_sleep_def
          finish_send_def split: sum.splits prod.splits pyexc.splits)
  qed
qed

lemma finish_send_trace [simp]:
  "trace (snd (finish_send sn wi r x)) = trace (snd x)"
  by (cases x) (auto simp: finish_send_def split: sum.splits pyexc.splits)

lemma step_trace_grows:
  "\<exists>evs. trace (snd (send_response_step w sn wi r p s)) = trace s @ evs"
proof (cases p)
  case AtStart
  obtain x s1 where a: "subprocess_run w True (SendScript sn wi r) s = (x, s1)"
    by (cases "subprocess_run w True (SendScript sn wi r) s")
  then have s1: "trace s1 = trace s @ [Run (SendScript sn wi r)]"
    using subprocess_run_snd[of w True "SendScript sn wi r" s] by simp
  obtain y s2 where b: "subprocess_run w False (SendKeys sn wi r) s = (y, s2)"
    by (cases "subprocess_run w False (SendKeys sn wi r) s")
  then have s2: "trace s2 = trace s @ [Run (SendKeys sn wi r)]"
    using subprocess_run_snd[of w False "SendKeys sn wi r" s] by simp
  from AtStart a b s1 s2 show ?thesis by (auto split: sum.splits)
next
  case AfterKeys
  then show ?thesis by (simp add: time_sleep_def finish_send_def)
next
  case AfterSleep
  obtain x s1 where a: "subprocess_run w False (SendKeys sn wi ''Enter'') s = (x, s1)"
    by (cases "subprocess_run w False (SendKeys sn wi ''Enter'') s")
  then have "trace s1 = trace s @ [Run (SendKeys sn wi ''Enter'')]"
    using subprocess_run_snd[of w False "SendKeys sn wi ''Enter''" s] by simp
  with AfterSleep a show ?thesis by (auto split: sum.splits)
next
  case (Returned b)
  then show ?thesis by simp
next
  case (Raised e)
  then show ?thesis by simp
qed

lemma step_from_start_sends:
  "Run (first_send w a)
     \<in> set (trace (snd (send_response_step w (sa_session a) (sa_window a) (sa_response a)
                           AtStart s)))"
proof -
  let ?sn = "sa_session a" let ?wi = "sa_window a" let ?r = "sa_response a"
  obtain x s1 where a: "subprocess_run w True (SendScript ?sn ?wi ?r) s = (x, s1)"
    by (cases "subprocess_run w True (SendScript ?sn ?wi ?r) s")
  then have s1: "trace s1 = trace s @ [Run (SendScript ?sn ?wi ?r)]"
    using subprocess_run_snd[of w True "SendScript ?sn ?wi ?r" s] by simp
  obtain y s2 where b: "subprocess_run w False (SendKeys ?sn ?wi ?r) s = (y, s2)"
    by (cases "subprocess_run w False (SendKeys ?sn ?wi ?r) s")
  then have s2: "trace s2 = trace s @ [Run (SendKeys ?sn ?wi ?r)]"
    using subprocess_run_snd[of w False "SendKeys ?sn ?wi ?r" s] by simp
  from a b s1 s2 show ?thesis by (auto simp: first_send_def split: sum.splits)
qed

lemma step_from_start_trace:
  "trace (snd (send_response_step w (sa_session a) (sa_window a) (sa_response a) AtStart s))
     = trace s @ [Run (first_send w a)]"
proof -
  let ?sn = "sa_session a" let ?wi = "sa_window a" let ?r = "sa_response a"
  obtain x s1 where a: "subprocess_run w True (SendScript ?sn ?wi ?r) s = (x, s1)"
    by (cases "subprocess_run w True (SendScript ?sn ?wi ?r) s")
  then have s1: "trace s1 = trace s @ [Run (SendScript ?sn ?wi ?r)]"
    using subprocess_run_snd[of w True "SendScript ?sn ?wi ?r" s] by simp
  obtain y s2 where b: "subprocess_run w False (SendKeys ?sn ?wi ?r) s = (y, s2)"
    by (cases "subprocess_run w False (SendKeys ?sn ?wi ?r) s")
  then have s2: "trace s2 = trace s @ [Run (SendKeys ?sn ?wi ?r)]"
    using subprocess_run_snd[of w False "SendKeys ?sn ?wi ?r" s] by simp
  from a b s1 s2 show ?thesis by (auto simp: first_send_def split: sum.splits)
qed

lemma step_count_mono:
  "count_list (trace s) e \<le> count_list (trace (snd (send_response_step w sn wi r p s))) e"
proof -
  from step_trace_grows[of w sn wi r p s] obtain evs where
    "trace (snd (send_response_step w sn wi r p s)) = trace s @ evs" ..
  then show ?thesis by simp
qed

lemma step_count_started:
  assumes "k + (if p = AtStart then 0 else 1) \<le> count_list (trace s) (Run (first_send w a))"
  shows "k + (if fst (send_response_step w (sa_session a) (sa_window a) (sa_response a) p s)
                  = AtStart then 0 else 1)
         \<le> count_list (trace (snd (send_response_step w (sa_session a) (sa_window a)
                                     (sa_response a) p s))) (Run (first_send w a))"
proof (cases "p = AtStart")
  case True
  with assms have "k \<le> count_list (trace s) (Run (first_send w a))" by simp
  then show ?thesis unfolding True step_from_start_trace by simp
next
  case False
  with assms have "k + 1 \<le> count_list (trace s) (Run (first_send w a))" by simp
  with step_count_mono[of s "Run (first_send w a)" w "sa_session a" "sa_window a"
      "sa_response a" p]
  show ?thesis by (simp split: if_splits)
qed

lemma interleave_counts:
  assumes "k + (if p1 = AtStart then 0 else 1) + (if p2 = AtStart then 0 else 1)
             \<le> count_list (trace s) (Run (first_send w a))"
    and "interleave w a a sched (p1, p2, s) = (q1, q2, s')"
  shows "k + (if q1 = AtStart then 0 else 1) + (if q2 = AtStart then 0 else 1)
           \<le> count_list (trace s') (Run (first_send w a))"
  using assms
proof (induction sched arbitrary: p1 p2 s)
  case Nil
  then show ?case by simp
next
  case (Cons t sched)
  let ?step = "\<lambda>p. send_response_step w (sa_session a) (sa_window a) (sa_response a) p s"
  show ?case
  proof (cases t)
    case First
    let ?k = "k + (if p2 = AtStart then 0 else 1)"
    from Cons.prems(1) have "?k + (if p1 = AtStart then 0 else 1)
        \<le> count_list (trace s) (Run (first_send w a))"
      by simp
    from step_count_started[OF this]
    have inv: "k + (if fst (?step p1) = AtStart then 0 else 1) + (if p2 = AtStart then 0 else 1)
        \<le> count_list (trace (snd (?step p1))) (Run (first_send w a))"
      by simp
    from Cons.prems(2) First
    have "interleave w a a sched (fst (?step p1), p2, snd (?step p1)) = (q1, q2, s')"
      by (simp split: prod.splits)
    from Cons.IH[OF inv this] show ?thesis .
  next
    case Second
    let ?k = "k + (if p1 = AtStart then 0 else 1)"
    from Cons.prems(1) have "?k + (if p2 = AtStart then 0 else 1)
        \<le> count_list (trace s) (Run (first_send w a))"
      by simp
    from step_count_started[OF this]
    have inv: "k + (if p1 = AtStart then 0 else 1) + (if fst (?step p2) = AtStart then 0 else 1)
        \<le> count_list (trace (snd (?step p2))) (Run (first_send w a))"
      by simp
    from Cons.prems(2) Second
    have "interleave w a a sched (p1, fst (?step p2), snd (?step p2)) = (q1, q2, s')"
      by (simp split: prod.splits)
    from Cons.IH[OF inv this] show ?thesis .
  qed
qed

lemma send_response_first_event:
  "\<exists>evs. trace (snd (send_response w sn wi r s))
           = trace s @ Run (first_send w \<lparr>sa_session = sn, sa_window = wi, sa_response = r\<rparr>)
               # evs"
proof -
  let ?a = "\<lparr>sa_session = sn, sa_window = wi, sa_response = r\<rparr>"
  obtain q1 t1 where st1: "send_response_step w sn wi r AtStart s = (q1, t1)"
    by (cases "send_response_step w sn wi r AtStart s")
  obtain q2 t2 where st2: "send_response_step w sn wi r q1 t1 = (q2, t2)"
    by (cases "send_response_step w sn wi r q1 t1")
  obtain q3 t3 where st3: "send_response_step w sn wi r q2 t2 = (q3, t3)"
    by (cases "send_response_step w sn wi r q2 t2")
  from step_from_start_trace[of w ?a s] st1
  have a: "trace t1 = trace s @ [Run (first_send w ?a)]" by simp
  from step_trace_grows[of w sn wi r q1 t1] st2 obtain e2 where b: "trace t2 = trace t1 @ e2"
    by auto
  from step_trace_grows[of w sn wi r q2 t2] st3 obtain e3 where c: "trace t3 = trace t2 @ e3"
    by auto
  from st1 st2 st3 have al: "send_response_alone w sn wi r s = (q3, t3)"
    by (simp add: send_response_alone_def)
  have "(case send_response_alone w sn wi r s of (p, t) \<Rightarrow> (outcome_of p, t))
           = (Some (fst (send_response w sn wi r s)), snd (send_response w sn wi r s))"
    by (simp add: send_response_alone_eq send_response_via_finish)
  with al have "snd (send_response w sn wi r s) = t3" by simp
  with a b c have "trace (snd (send_response w sn wi r s))
      = trace s @ Run (first_send w ?a) # (e2 @ e3)"
    by simp
  then show ?thesis by blast
qed

text \<open>
  C2 as stated fails: there is no in-flight guard. With two threads in
  \<open>send_response\<close> for window 0 of the same session, after one step of each both are
  in flight, each having sent the keys; run to the end, both return \<open>True\<close>, the
  keys and \<open>Enter\<close> have been sent twice, and two successes are logged. No outcome
  is a skip.
\<close>

theorem one_send_in_flight_counterexample:
  "(case interleave confirm_pane answer_one answer_one [First, Second]
           (AtStart, AtStart, started (get_preset_config ''conservative'')) of
      (p1, p2, s) \<Rightarrow>
        in_flight p1 \<and> in_flight p2
        \<and> trace s = [Run (SendKeys ''dev'' 0 ''1''), Run (SendKeys ''dev'' 0 ''1'')])
   \<and> (case interleave confirm_pane answer_one answer_one
           [First, Second, First, Second, First, Second]
           (AtStart, AtStart, started (get_preset_config ''conservative'')) of
      (p1, p2, s) \<Rightarrow>
        outcome_of p1 = Some (Inr True) \<and> outcome_of p2 = Some (Inr True)
        \<and> trace s = [Run (SendKeys ''dev'' 0 ''1''), Run (SendKeys ''dev'' 0 ''1''),
                      Sleep 1, Sleep 1,
                      Run (SendKeys ''dev'' 0 ''Enter''), Run (SendKeys ''dev'' 0 ''Enter'')]
        \<and> map status (response_log s)
            = [''Success via direct tmux'', ''Success via direct tmux''])"
  by code_simp

text \<open>
  C2, amended. In every state, the first action of \<open>send_response\<close> is its send:
  nothing is consulted before it. So in every interleaving of two executions for
  the same window, the trace holds one more send for each execution that has left
  its start, whatever the other one is doing. Run alone, the steps are
  \<open>send_response\<close>, whose trace begins with its send whatever it returns.
\<close>

theorem send_response_takes_no_guard:
  assumes run: "interleave w a a sched (AtStart, AtStart, s) = (p1, p2, s')"
  shows "count_list (trace s) (Run (first_send w a))
           + (if p1 = AtStart then 0 else 1) + (if p2 = AtStart then 0 else 1)
           \<le> count_list (trace s') (Run (first_send w a))
       \<and> trace (snd (send_response_step w (sa_session a) (sa_window a) (sa_response a)
                        AtStart t))
           = trace t @ [Run (first_send w a)]
       \<and> (case send_response_alone w sn wi r t of (p, t') \<Rightarrow> (outcome_of p, t'))
           = (Some (fst (send_response w sn wi r t)), snd (send_response w sn wi r t))
       \<and> (\<exists>evs. trace (snd (send_response w sn wi r t))
             = trace t @ Run (first_send w \<lparr>sa_session = sn, sa_window = wi, sa_response = r\<rparr>)
                 # evs)"
proof -
  have "count_list (trace s) (Run (first_send w a))
          + (if AtStart = AtStart then 0 else 1) + (if AtStart = AtStart then 0 else 1)
          \<le> count_list (trace s) (Run (first_send w a))"
    by simp
  from interleave_counts[OF this run]
  have cnt: "count_list (trace s) (Run (first_send w a))
           + (if p1 = AtStart then 0 else 1) + (if p2 = AtStart then 0 else 1)
           \<le> count_list (trace s') (Run (first_send w a))" .
  have alone: "(case send_response_alone w sn wi r t of (p, t') \<Rightarrow> (outcome_of p, t'))
           = (Some (fst (send_response w sn wi r t)), snd (send_response w sn wi r t))"
    by (simp add: send_response_alone_eq send_response_via_finish)
  from cnt step_from_start_trace[of w a t] alone send_response_first_event[of w sn wi r t]
  show ?thesis by blast
qed

theorem send_response_takes_no_guard_witness:
  "fst (interleave confirm_pane answer_one answer_one [First, Second, First]
          (AtStart, AtStart, started (get_preset_config ''conservative''))) = AfterSleep
   \<and> fst (snd (interleave confirm_pane answer_one answer_one [First, Second, First]
          (AtStart, AtStart, started (get_preset_config ''conservative'')))) = AfterKeys
   \<and> first_send confirm_pane answer_one = SendKeys ''dev'' 0 ''1''
   \<and> 2 \<le> count_list
            (trace (snd (snd (interleave confirm_pane answer_one answer_one
               [First, Second, First]
               (AtStart, AtStart, started (get_preset_config ''conservative''))))))
            (Run (SendKeys ''dev'' 0 ''1''))
   \<and> fst (send_response confirm_pane ''dev'' 0 ''1''
            (started (get_preset_config ''conservative''))) = Inr True"
proof -
  let ?st = "started (get_preset_config ''conservative'')"
  let ?end = "interleave confirm_pane answer_one answer_one [First, Second, First]
          (AtStart, AtStart, ?st)"
  have p1: "fst ?end = AfterSleep" by code_simp
  have p2: "fst (snd ?end) = AfterKeys" by code_simp
  have fs: "first_send confirm_pane answer_one = SendKeys ''dev'' 0 ''1''" by code_simp
  have ok: "fst (send_response confirm_pane ''dev'' 0 ''1'' ?st) = Inr True" by code_simp
  have tr0: "trace ?st = []" by code_simp
  have run: "?end = (AfterSleep, AfterKeys, snd (snd ?end))"
    unfolding p1[symmetric] p2[symmetric] by simp
  from send_response_takes_no_guard[OF run, THEN conjunct1]
  have "count_list (trace ?st) (Run (first_send confirm_pane answer_one))
           + (if AfterSleep = AtStart then 0 else 1) + (if AfterKeys = AtStart then 0 else 1)
           \<le> count_list (trace (snd (snd ?end))) (Run (first_send confirm_pane answer_one))" .
  then have "2 \<le> count_list (trace (snd (snd ?end))) (Run (SendKeys ''dev'' 0 ''1''))"
    unfolding fs tr0 by simp
  with p1 p2 fs ok show ?thesis by blast
qed


end
